theory Spec2Isabelle
  imports Complex_Main
begin

section \<open>Values, characters and errors\<close>

text \<open>
  The protocol registry of \<^verbatim>\<open>homeassistant/components/esphome/protocols.py\<close> works on
  the dynamically typed values that the YAML loader and the callers hand to it. A string
  is a sequence of code points; the model keeps the code points below 256 (the type
  \<^typ>\<open>char\<close>). A float is modelled by the rational number it denotes, so the model
  covers the finite floats only. A dictionary is an association list in insertion
  order, with string keys. \<open>PCallable v\<close> is the function object that the factory
  \<^verbatim>\<open>vol.Boolean\<close> returns when it is called with \<open>v\<close> in the place of its message
  (see \<open>CPP_TYPES\<close>). Values are compared by their structure.
\<close>

datatype pyval =
    PNone
  | PBool bool
  | PInt int
  | PFloat rat
  | PStr string
  | PList "pyval list"
  | PDict "(string \<times> pyval) list"
  | PCallable pyval

definition dquote :: char where "dquote = CHR 0x22"
definition squote :: char where "squote = CHR 0x27"
definition backslash :: char where "backslash = CHR 0x5C"
definition newline :: char where "newline = CHR 0x0A"

text \<open>
  \<^verbatim>\<open>str.isspace\<close>, \<^verbatim>\<open>str.strip()\<close> and the regular expression class \<^verbatim>\<open>\s\<close> of a
  \<^verbatim>\<open>str\<close> pattern agree on the white space below 256: the code points 9 to 13, 28 to
  32, 133 and 160.
\<close>

definition isspace :: "char \<Rightarrow> bool" where
  "isspace c = (let n = (of_char c :: nat) in
     (9 \<le> n \<and> n \<le> 13) \<or> (28 \<le> n \<and> n \<le> 32) \<or> n = 133 \<or> n = 160)"

definition is_quote :: "char \<Rightarrow> bool" where
  "is_quote c = (c = dquote \<or> c = squote)"

definition strip :: "string \<Rightarrow> string" where
  "strip s = rev (dropWhile isspace (rev (dropWhile isspace s)))"

text \<open>\<^verbatim>\<open>str.lower()\<close> on the code points below 256.\<close>

definition lower_char :: "char \<Rightarrow> char" where
  "lower_char c = (let n = (of_char c :: nat) in
     if (65 \<le> n \<and> n \<le> 90) \<or> (192 \<le> n \<and> n \<le> 222 \<and> n \<noteq> 215)
     then char_of (n + 32) else c)"

definition lower :: "string \<Rightarrow> string" where
  "lower s = map lower_char s"

text \<open>
  The messages of the exceptions the module raises, one constructor for each place that
  raises, and the exceptions themselves. An error of voluptuous is a message and a path.
  \<^verbatim>\<open>vol.Invalid\<close> carries one error and its subclass \<^verbatim>\<open>vol.MultipleInvalid\<close> one or
  more; \<open>Invalid e es\<close> is the first error \<open>e\<close>, which \<^verbatim>\<open>err.msg\<close> and \<^verbatim>\<open>err.path\<close>
  read, and the further errors \<open>es\<close>.
\<close>

datatype msg =
    StringIsCollection
  | StringIsBoolean
  | StringIsNone
  | MustBeString
  | HasFractionalPart
  | CannotParseInteger string
  | ValueAtLeast int
  | ValueHigherThan int
  | ValueAtMost int
  | ValueLowerThan int
  | RangeInvalidType
  | LengthAtLeast nat
  | LengthAtMost nat
  | LengthInvalidType
  | InvalidIdentifier
  | NoValidValueFound
  | NotAValidValue
  | ExpectedList
  | ExpectedInstance string
  | ExtraKeysNotAllowed
  | RequiredKeyNotProvided
  | ContainsDuplicates
  | AlternatingSigns nat nat
  | NotBinaryDigit char
  | DefaultValueError string msg
  | ProtocolsNotInitialized
  | ProtocolNotDefined string
  | NeedsProtocolAndParameters
  | ExpectedMaximumArguments nat string
  | MalformattedCommand string string "(string \<times> pyval) list" "pyval option" msg
  | LibraryMessage string

datatype error =
    Invalid "msg \<times> pyval list" "(msg \<times> pyval list) list"
  | TypeError
  | KeyError pyval
  | AssertionError

type_synonym 'a result = "error + 'a"
type_synonym validator = "pyval \<Rightarrow> pyval result"

definition invalid :: "msg \<Rightarrow> 'a result" where
  "invalid m = Inl (Invalid (m, []) [])"

definition invalid_at :: "msg \<Rightarrow> pyval list \<Rightarrow> 'a result" where
  "invalid_at m p = Inl (Invalid (m, p) [])"

text \<open>
  A schema that collects the errors of its parts raises them together when it is done,
  and returns its result when there are none.
\<close>

fun raise_all :: "(msg \<times> pyval list) list \<Rightarrow> 'a \<Rightarrow> 'a result" where
  "raise_all [] v = Inr v"
| "raise_all (e # es) v = Inl (Invalid e es)"

text \<open>\<^verbatim>\<open>Invalid.prepend\<close>: an enclosing schema puts its key or index in front of the path.\<close>

fun under :: "pyval \<Rightarrow> msg \<times> pyval list \<Rightarrow> msg \<times> pyval list" where
  "under k (m, q) = (m, k # q)"

fun prepend :: "pyval \<Rightarrow> error \<Rightarrow> error" where
  "prepend k (Invalid e es) = Invalid (under k e) (map (under k) es)"
| "prepend k e = e"

section \<open>Validation helpers\<close>

text \<open>
  \<^verbatim>\<open>
  def alternating_signs(value):
      assert isinstance(value, list)
      last_negative = None
      for i, val in enumerate(value):
          this_negative = val < 0
          if i != 0:
              if this_negative == last_negative:
                  raise vol.Invalid("... please see index {i} and {i + 1}", [i])
          last_negative = this_negative
      return value
  \<close>
  \<^verbatim>\<open>val < 0\<close> is defined on numbers (a \<^verbatim>\<open>bool\<close> compares as 0 or 1) and raises
  \<^verbatim>\<open>TypeError\<close> on the other values.
\<close>

fun is_negative :: "pyval \<Rightarrow> bool option" where
  "is_negative (PInt n) = Some (n < 0)"
| "is_negative (PFloat r) = Some (r < 0)"
| "is_negative (PBool b) = Some False"
| "is_negative v = None"

fun alternating_loop :: "nat \<Rightarrow> bool option \<Rightarrow> pyval list \<Rightarrow> unit result" where
  "alternating_loop i last_negative [] = Inr ()"
| "alternating_loop i last_negative (val # rest) =
     (case is_negative val of
        None \<Rightarrow> Inl TypeError
      | Some this_negative \<Rightarrow>
          if i \<noteq> 0 \<and> Some this_negative = last_negative
          then invalid_at (AlternatingSigns i (i + 1)) [PInt (int i)]
          else alternating_loop (Suc i) (Some this_negative) rest)"

fun alternating_signs :: validator where
  "alternating_signs (PList xs) =
     (case alternating_loop 0 None xs of Inl e \<Rightarrow> Inl e | Inr u \<Rightarrow> Inr (PList xs))"
| "alternating_signs v = Inl AssertionError"

section \<open>The quote-aware tokenizer\<close>

text \<open>
  \<^verbatim>\<open>
  def quoted_split(text, delimiter):
      args = []
      re_first = re.compile(
          r"^(?:\s*([\"\'])(?:(?!\1).|\\\1)*(?<!\\)\1\s*|[^" + delimiter + r"]?)+")
      while len(text):
          m = re.search(re_first, text)
          text = text[m.end(0) + 1 :]
          arg = m[0].strip()
          args.append(arg)
      return args
  \<close>
  The callers pass \<^verbatim>\<open>","\<close> and \<^verbatim>\<open>":"\<close>; the model takes the delimiter as one
  character, which the class \<^verbatim>\<open>[^...]\<close> then excludes.

  The regular expression is matched by backtracking, alternatives in the order written
  and repetitions greedy. \<open>quoted_body\<close> is the search for the body of a quoted run and
  its closing quote, started behind the opening quote \<open>q\<close>: at each position it first
  tries to take one character that is neither \<open>q\<close> nor a line feed
  (\<^verbatim>\<open>(?!\1).\<close>), then a backslash followed by \<open>q\<close> (\<^verbatim>\<open>\\\1\<close>), and last to stop,
  which needs \<open>q\<close> here, no backslash before it (\<^verbatim>\<open>(?<!\\)\1\<close>) and a rest that the
  remainder of the pattern accepts (\<open>K\<close>). The result is the length of the body of the
  first success in that order.
\<close>

fun quoted_body :: "(string \<Rightarrow> bool) \<Rightarrow> char \<Rightarrow> char \<Rightarrow> string \<Rightarrow> nat option" where
  "quoted_body K q prev [] = None"
| "quoted_body K q prev [c] =
     (if c = q \<and> prev \<noteq> backslash \<and> K [] then Some 0 else None)"
| "quoted_body K q prev (c # c' # cs) =
     (case (if c \<noteq> q \<and> c \<noteq> newline then quoted_body K q c (c' # cs) else None) of
        Some n \<Rightarrow> Some (Suc n)
      | None \<Rightarrow>
         (case (if c = backslash \<and> c' = q then quoted_body K q c' cs else None) of
            Some n \<Rightarrow> Some (Suc (Suc n))
          | None \<Rightarrow>
              if c = q \<and> prev \<noteq> backslash \<and> K (c' # cs) then Some 0 else None))"

text \<open>
  The first alternative of the group, \<^verbatim>\<open>\s*(["'])(?:(?!\1).|\\\1)*(?<!\\)\1\s*\<close>:
  the number of characters it matches at the start of the text, if it matches. Nothing
  that follows the group can fail, so every rest is accepted.
\<close>

definition quoted_run :: "string \<Rightarrow> nat option" where
  "quoted_run text =
     (let ws = length (takeWhile isspace text) in
      case drop ws text of
        [] \<Rightarrow> None
      | q # body \<Rightarrow>
          if is_quote q then
            (case quoted_body (\<lambda>r. True) q q body of
               None \<Rightarrow> None
             | Some n \<Rightarrow>
                 Some (ws + 1 + n + 1 + length (takeWhile isspace (drop (Suc n) body))))
          else None)"

lemma quoted_body_le: "quoted_body K q prev cs = Some n \<Longrightarrow> n < length cs"
  by (induction K q prev cs arbitrary: n rule: quoted_body.induct)
     (auto split: if_splits option.splits)

lemma quoted_run_bounds:
  assumes "quoted_run text = Some n"
  shows "0 < n \<and> n \<le> length text"
proof -
  let ?ws = "length (takeWhile isspace text)"
  from assms obtain q body m where
    d: "drop ?ws text = q # body" and
    b: "quoted_body (\<lambda>r. True) q q body = Some m" and
    n: "n = ?ws + 1 + m + 1 + length (takeWhile isspace (drop (Suc m) body))"
    by (auto simp: quoted_run_def Let_def split: list.splits if_splits option.splits)
  from b have m: "m < length body" by (rule quoted_body_le)
  have "length (takeWhile isspace (drop (Suc m) body)) \<le> length (drop (Suc m) body)"
    by (rule length_takeWhile_le)
  with m have "m + 1 + length (takeWhile isspace (drop (Suc m) body)) \<le> length body"
    by simp
  moreover from d have "length text = ?ws + 1 + length body"
    by (metis One_nat_def add.assoc add.commute length_Cons length_drop
        length_takeWhile_le le_add_diff_inverse plus_1_eq_Suc)
  ultimately show ?thesis using n by simp
qed

text \<open>
  \<^verbatim>\<open>m.end(0)\<close>: the group is repeated; each round takes a quoted run if there is one,
  else one character that is not the delimiter, and the repetition ends at the
  delimiter or at the end of the text.
\<close>

function re_first_end :: "char \<Rightarrow> string \<Rightarrow> nat" where
  "re_first_end d text =
     (case quoted_run text of
        Some n \<Rightarrow> n + re_first_end d (drop n text)
      | None \<Rightarrow>
          (case text of
             [] \<Rightarrow> 0
           | c # cs \<Rightarrow> if c = d then 0 else Suc (re_first_end d cs)))"
  by pat_completeness auto
termination
proof (relation "measure (\<lambda>(d, text). length text)")
  show "wf (measure (\<lambda>(d, text). length text))" by simp
next
  fix d :: char and t :: string and n :: nat
  assume "quoted_run t = Some n"
  then have "0 < n \<and> n \<le> length t" by (rule quoted_run_bounds)
  then show "((d, drop n t), (d, t)) \<in> measure (\<lambda>(d, text). length text)"
    by auto
next
  fix d :: char and t :: string and c :: char and cs :: string
  assume "t = c # cs"
  then show "((d, cs), (d, t)) \<in> measure (\<lambda>(d, text). length text)"
    by simp
qed

declare re_first_end.simps [simp del]

function quoted_split :: "string \<Rightarrow> char \<Rightarrow> string list" where
  "quoted_split text d =
     (if text = [] then []
      else strip (take (re_first_end d text) text)
             # quoted_split (drop (Suc (re_first_end d text)) text) d)"
  by pat_completeness auto
termination
  by (relation "measure (\<lambda>(text, d). length text)") auto

declare quoted_split.simps [simp del]

section \<open>Scalar coercions\<close>

text \<open>
  What the module takes from Python and from the voluptuous library without defining it,
  and what this model leaves open: the rendering \<^verbatim>\<open>str(v)\<close> of a float, a list or a
  dictionary, the coercion \<^verbatim>\<open>vol.Coerce(float)\<close> (it rounds), and the call
  \<^verbatim>\<open>SCHEMA_VALIDATORS[cv](*posargs, **kwargs)\<close> that builds a constraint from the
  parameters written in the catalog (it may raise). Every function below that needs one
  of them takes the record as its first argument; the theorems hold for every such
  record.
\<close>

record pylib =
  lib_str :: "pyval \<Rightarrow> string"
  lib_float :: validator
  lib_call :: "string \<Rightarrow> pyval list \<Rightarrow> (string \<times> pyval) list \<Rightarrow> validator result"

text \<open>\<^verbatim>\<open>vol.All(*validators)\<close>: each validator in turn, the first exception ends it.\<close>

fun vol_All :: "validator list \<Rightarrow> validator" where
  "vol_All [] v = Inr v"
| "vol_All (f # fs) v = (case f v of Inl e \<Rightarrow> Inl e | Inr v' \<Rightarrow> vol_All fs v')"

text \<open>
  \<^verbatim>\<open>
  def string_strict(value):
      if isinstance(value, str):
          return value
      raise vol.Invalid(f"Must be string, got {type(value)}. ...")
  \<close>
\<close>

fun string_strict :: validator where
  "string_strict (PStr s) = Inr (PStr s)"
| "string_strict v = invalid MustBeString"

text \<open>\<^verbatim>\<open>str(n)\<close> of an integer.\<close>

fun nat_digits :: "nat \<Rightarrow> string" where
  "nat_digits n =
     (if n < 10 then [char_of (48 + n)] else nat_digits (n div 10) @ [char_of (48 + n mod 10)])"

declare nat_digits.simps [simp del]

definition int_str :: "int \<Rightarrow> string" where
  "int_str n = (if n < 0 then CHR ''-'' # nat_digits (nat (- n)) else nat_digits (nat n))"

fun py_str :: "pylib \<Rightarrow> pyval \<Rightarrow> string" where
  "py_str lib PNone = ''None''"
| "py_str lib (PBool b) = (if b then ''True'' else ''False'')"
| "py_str lib (PInt n) = int_str n"
| "py_str lib (PStr s) = s"
| "py_str lib v = lib_str lib v"

text \<open>
  \<^verbatim>\<open>
  def string(value):
      if isinstance(value, (dict, list)):
          raise vol.Invalid("string value cannot be dictionary or list.")
      if isinstance(value, bool):
          raise vol.Invalid("Auto-converted this value to boolean, ...")
      if isinstance(value, str):
          re_quote = re.compile(r"^\s*([\"\'])((?:(?!\1).|\\\1)*)(?<!\\)\1\s*$")
          m = re.search(re_quote, value)
          if m:
              value = m[2]
          return value
      if value is not None:
          return str(value)
      raise vol.Invalid("string value is None")
  \<close>
  \<open>unquote\<close> is the match of \<^verbatim>\<open>re_quote\<close>: white space, an opening quote, the body
  (group 2) found by the same search as in the tokenizer, the closing quote, and then
  only white space up to the end.
\<close>

definition unquote :: "string \<Rightarrow> string option" where
  "unquote s =
     (case dropWhile isspace s of
        [] \<Rightarrow> None
      | q # body \<Rightarrow>
          if is_quote q then
            (case quoted_body (\<lambda>r. list_all isspace r) q q body of
               None \<Rightarrow> None
             | Some n \<Rightarrow> Some (take n body))
          else None)"

fun string :: "pylib \<Rightarrow> validator" where
  "string lib (PDict d) = invalid StringIsCollection"
| "string lib (PList xs) = invalid StringIsCollection"
| "string lib (PBool b) = invalid StringIsBoolean"
| "string lib (PStr s) = (case unquote s of Some body \<Rightarrow> Inr (PStr body) | None \<Rightarrow> Inr (PStr s))"
| "string lib PNone = invalid StringIsNone"
| "string lib v = Inr (PStr (py_str lib v))"

text \<open>
  \<^verbatim>\<open>int(value, base)\<close> on a string, for the bases 10 and 16: white space around the
  number (for \<^verbatim>\<open>int\<close> the code points 9 to 13, 32, 133 and 160), an optional sign,
  for base 16 an optional prefix \<^verbatim>\<open>0x\<close> with one optional underscore behind it, then
  digits with single underscores between them. \<open>None\<close> stands for \<^verbatim>\<open>ValueError\<close>.
  The limit that newer interpreters put on the number of decimal digits is not
  modelled.
\<close>

definition int_space :: "char \<Rightarrow> bool" where
  "int_space c = (let n = (of_char c :: nat) in (9 \<le> n \<and> n \<le> 13) \<or> n = 32 \<or> n = 133 \<or> n = 160)"

definition digit_value :: "char \<Rightarrow> nat option" where
  "digit_value c = (let n = (of_char c :: nat) in
     if 48 \<le> n \<and> n \<le> 57 then Some (n - 48)
     else if 97 \<le> n \<and> n \<le> 122 then Some (n - 87)
     else if 65 \<le> n \<and> n \<le> 90 then Some (n - 55)
     else None)"

text \<open>
  The digits: \<open>acc\<close> is the value read so far, \<open>prev_us\<close> tells that the character
  before was an underscore. The scan stops at the first character that is neither a
  digit of the base nor an underscore, and gives the value and the rest.
\<close>

fun scan_digits :: "nat \<Rightarrow> nat \<Rightarrow> bool \<Rightarrow> string \<Rightarrow> (nat \<times> string) option" where
  "scan_digits base acc prev_us [] = (if prev_us then None else Some (acc, []))"
| "scan_digits base acc prev_us (c # cs) =
     (if c = CHR ''_'' then (if prev_us then None else scan_digits base acc True cs)
      else
        (case digit_value c of
           None \<Rightarrow> if prev_us then None else Some (acc, c # cs)
         | Some v \<Rightarrow>
             if v < base then scan_digits base (acc * base + v) False cs
             else if prev_us then None else Some (acc, c # cs)))"

definition is_digit_of :: "nat \<Rightarrow> char \<Rightarrow> bool" where
  "is_digit_of base c = (case digit_value c of None \<Rightarrow> False | Some v \<Rightarrow> v < base)"

definition py_int :: "string \<Rightarrow> nat \<Rightarrow> int option" where
  "py_int s base =
     (let s1 = dropWhile int_space s;
          (sign, s2) = (case s1 of
                          c # cs \<Rightarrow> if c = CHR ''+'' then (1, cs)
                                    else if c = CHR ''-'' then (- 1, cs) else (1, s1)
                        | [] \<Rightarrow> (1, s1));
          s3 = (case s2 of
                  c # x # cs \<Rightarrow>
                    if base = 16 \<and> c = CHR ''0'' \<and> (x = CHR ''x'' \<or> x = CHR ''X'')
                    then (case cs of u # cs' \<Rightarrow> if u = CHR ''_'' then cs' else cs | [] \<Rightarrow> cs)
                    else s2
                | _ \<Rightarrow> s2)
      in case s3 of
           [] \<Rightarrow> None
         | c # cs \<Rightarrow>
             if \<not> is_digit_of base c then None
             else
               (case scan_digits base 0 False s3 of
                  None \<Rightarrow> None
                | Some (n, rest) \<Rightarrow>
                    if dropWhile int_space rest = [] then Some (sign * int n) else None))"

text \<open>
  \<^verbatim>\<open>
  def integer(value):
      if isinstance(value, int):
          return value
      if isinstance(value, float):
          if int(value) == value:
              return int(value)
          raise vol.Invalid("This option only accepts integers with no fractional part. ...")
      value = string_strict(value).lower()
      base = 10
      if value.startswith("0x"):
          base = 16
      try:
          return int(value, base)
      except ValueError:
          raise vol.Invalid(f"Expected integer, but cannot parse {value} as an integer")
  \<close>
  A \<^verbatim>\<open>bool\<close> is an \<^verbatim>\<open>int\<close> in Python and is returned as it is. \<^verbatim>\<open>int(x)\<close> of a float
  truncates towards zero.
\<close>

definition py_trunc :: "rat \<Rightarrow> int" where
  "py_trunc r = (if 0 \<le> r then \<lfloor>r\<rfloor> else \<lceil>r\<rceil>)"

definition startswith :: "string \<Rightarrow> string \<Rightarrow> bool" where
  "startswith s p = (take (length p) s = p)"

fun integer :: validator where
  "integer (PInt n) = Inr (PInt n)"
| "integer (PBool b) = Inr (PBool b)"
| "integer (PFloat r) =
     (if of_int (py_trunc r) = r then Inr (PInt (py_trunc r)) else invalid HasFractionalPart)"
| "integer v =
     (case string_strict v of
        Inl e \<Rightarrow> Inl e
      | Inr (PStr s) \<Rightarrow>
          (let value = lower s; base = (if startswith value ''0x'' then 16 else 10)
           in case py_int value base of
                Some n \<Rightarrow> Inr (PInt n)
              | None \<Rightarrow> invalid (CannotParseInteger value))
      | Inr w \<Rightarrow> invalid MustBeString)"

text \<open>
  \<^verbatim>\<open>vol.Range(min, max, min_included, max_included)\<close>: the value is compared with
  the bounds that are given, as a number (a \<^verbatim>\<open>bool\<close> as 0 or 1), and a value without
  an order is refused by the first comparison. Without bounds nothing is compared and
  every value is returned.
\<close>

fun num_value :: "pyval \<Rightarrow> rat option" where
  "num_value (PInt n) = Some (of_int n)"
| "num_value (PBool b) = Some (if b then 1 else 0)"
| "num_value (PFloat r) = Some r"
| "num_value v = None"

definition vol_Range :: "int option \<Rightarrow> int option \<Rightarrow> bool \<Rightarrow> bool \<Rightarrow> validator" where
  "vol_Range mn mx min_included max_included v =
     (if mn = None \<and> mx = None then Inr v
      else case num_value v of
        None \<Rightarrow> invalid RangeInvalidType
      | Some x \<Rightarrow>
          (case mn of
             Some lo \<Rightarrow>
               if min_included \<and> \<not> of_int lo \<le> x then invalid (ValueAtLeast lo)
               else if \<not> min_included \<and> \<not> of_int lo < x then invalid (ValueHigherThan lo)
               else (case mx of
                       Some hi \<Rightarrow>
                         if max_included \<and> \<not> x \<le> of_int hi then invalid (ValueAtMost hi)
                         else if \<not> max_included \<and> \<not> x < of_int hi then invalid (ValueLowerThan hi)
                         else Inr v
                     | None \<Rightarrow> Inr v)
           | None \<Rightarrow>
               (case mx of
                  Some hi \<Rightarrow>
                    if max_included \<and> \<not> x \<le> of_int hi then invalid (ValueAtMost hi)
                    else if \<not> max_included \<and> \<not> x < of_int hi then invalid (ValueLowerThan hi)
                    else Inr v
                | None \<Rightarrow> Inr v)))"

text \<open>
  \<^verbatim>\<open>
  def integer_range(min=None, max=None, min_included=True, max_included=True):
      ...
      return vol.All(integer, vol.Range(min=min, max=max,
                     min_included=min_included, max_included=max_included))
  \<close>
\<close>

definition integer_range :: "int option \<Rightarrow> int option \<Rightarrow> bool \<Rightarrow> bool \<Rightarrow> validator" where
  "integer_range mn mx min_included max_included =
     vol_All [integer, vol_Range mn mx min_included max_included]"

text \<open>\<^verbatim>\<open>def valid(value): return value\<close>\<close>

definition valid :: validator where
  "valid value = Inr value"

text \<open>
  \<^verbatim>\<open>
  def coerce_list(value):
      if isinstance(value, list):
          return value
      if value is None:
          return []
      if isinstance(value, str):
          return quoted_split(value, ",")
      return [value]
  \<close>
\<close>

fun coerce_list :: validator where
  "coerce_list (PList xs) = Inr (PList xs)"
| "coerce_list PNone = Inr (PList [])"
| "coerce_list (PStr s) = Inr (PList (map PStr (quoted_split s (CHR '',''))))"
| "coerce_list v = Inr (PList [v])"

text \<open>
  \<^verbatim>\<open>
  def binary_string(value):
      value = string(value)
      for char in value:
          if char not in ("0", "1"):
              raise vol.Invalid(f"String must be all binary digits, but got '{char}'")
      return value
  \<close>
\<close>

fun binary_loop :: "string \<Rightarrow> unit result" where
  "binary_loop [] = Inr ()"
| "binary_loop (c # cs) =
     (if c \<noteq> CHR ''0'' \<and> c \<noteq> CHR ''1'' then invalid (NotBinaryDigit c) else binary_loop cs)"

definition binary_string :: "pylib \<Rightarrow> validator" where
  "binary_string lib value =
     (case string lib value of
        Inl e \<Rightarrow> Inl e
      | Inr (PStr s) \<Rightarrow> (case binary_loop s of Inl e \<Rightarrow> Inl e | Inr u \<Rightarrow> Inr (PStr s))
      | Inr w \<Rightarrow> Inl TypeError)"

section \<open>The type catalog\<close>

text \<open>
  \<^verbatim>\<open>
  CPP_TYPES = {
      "int": integer_range(min=-2147483648, max=2147483647),
      "int32_t": integer_range(min=-2147483648, max=2147483647),
      "uint": integer_range(min=0, max=4294967295),
      "uint8_t": integer_range(min=0, max=255),
      "uint16_t": integer_range(min=0, max=65535),
      "uint32_t": integer_range(min=0, max=4294967295),
      "uint64_t": integer_range(min=0, max=18446744073709551615),
      "float": vol.Coerce(float),
      "bool": vol.Boolean,
      "string": string,
  }
  VALID_TYPES = list(CPP_TYPES) + [t + "[]" for t in CPP_TYPES]
  \<close>
  The entry for \<^verbatim>\<open>bool\<close> is the factory \<^verbatim>\<open>vol.Boolean\<close> itself, not the validator
  \<^verbatim>\<open>vol.Boolean()\<close>: applied to a value it returns a function object and never fails.
  \<open>PCallable v\<close> stands for a function object made from \<open>v\<close>; each call makes a new
  object, and the model keeps no identity of objects, so two values \<open>PCallable v\<close> may
  stand for two different objects.
\<close>

definition CPP_TYPES :: "pylib \<Rightarrow> (string \<times> validator) list" where
  "CPP_TYPES lib =
     [(''int'', integer_range (Some (- 2147483648)) (Some 2147483647) True True),
      (''int32_t'', integer_range (Some (- 2147483648)) (Some 2147483647) True True),
      (''uint'', integer_range (Some 0) (Some 4294967295) True True),
      (''uint8_t'', integer_range (Some 0) (Some 255) True True),
      (''uint16_t'', integer_range (Some 0) (Some 65535) True True),
      (''uint32_t'', integer_range (Some 0) (Some 4294967295) True True),
      (''uint64_t'', integer_range (Some 0) (Some 18446744073709551615) True True),
      (''float'', lib_float lib),
      (''bool'', \<lambda>v. Inr (PCallable v)),
      (''string'', string lib)]"

definition type_names :: "string list" where
  "type_names = [''int'', ''int32_t'', ''uint'', ''uint8_t'', ''uint16_t'', ''uint32_t'',
     ''uint64_t'', ''float'', ''bool'', ''string'']"

definition VALID_TYPES :: "string list" where
  "VALID_TYPES = type_names @ map (\<lambda>t. t @ ''[]'') type_names"

text \<open>
  \<^verbatim>\<open>
  SCHEMA_VALIDATORS = {
      "Range": vol.Range, "Any": vol.Any, "Length": vol.Length,
      "proto_pronto": valid,  # TODO
      "alternating_signs": alternating_signs,
      "binary_string": binary_string,
  }
  \<close>
  \<open>bare_validator\<close> is an entry used as a validator as it stands (a constraint written
  without parameters): a function is called; a class stands for an instance check,
  which no value of the catalog or of a command passes.
\<close>

definition validator_names :: "string list" where
  "validator_names = [''Range'', ''Any'', ''Length'', ''proto_pronto'', ''alternating_signs'',
     ''binary_string'']"

definition bare_validator :: "pylib \<Rightarrow> string \<Rightarrow> validator option" where
  "bare_validator lib cv =
     (if cv = ''Range'' \<or> cv = ''Any'' \<or> cv = ''Length''
        then Some (\<lambda>v. invalid (ExpectedInstance cv))
      else if cv = ''proto_pronto'' then Some valid
      else if cv = ''alternating_signs'' then Some alternating_signs
      else if cv = ''binary_string'' then Some (binary_string lib)
      else None)"

text \<open>
  The sequence schema \<^verbatim>\<open>[validator]\<close> of voluptuous: the value must be a list; every
  element is validated; the errors of the elements are collected, each under its index,
  and raised together at the end. An error that already has a path below the element
  is raised at once, and so is any exception that is not \<^verbatim>\<open>vol.Invalid\<close>.
\<close>

fun vol_list_loop ::
  "validator \<Rightarrow> nat \<Rightarrow> pyval list \<Rightarrow> pyval list \<Rightarrow> (msg \<times> pyval list) list \<Rightarrow> pyval result" where
  "vol_list_loop f i [] out errors =
     raise_all errors (PList out)"
| "vol_list_loop f i (x # xs) out errors =
     (case f x of
        Inr y \<Rightarrow> vol_list_loop f (Suc i) xs (out @ [y]) errors
      | Inl (Invalid (m, p) es) \<Rightarrow>
          if p \<noteq> [] then Inl (prepend (PInt (int i)) (Invalid (m, p) es))
          else vol_list_loop f (Suc i) xs out
                 (errors @ map (under (PInt (int i))) ((m, p) # es))
      | Inl e \<Rightarrow> Inl e)"

fun vol_list :: "validator \<Rightarrow> validator" where
  "vol_list f (PList xs) = vol_list_loop f 0 xs [] []"
| "vol_list f v = invalid ExpectedList"

section \<open>The catalog and the argument schema compiler\<close>

text \<open>
  The catalog is the value that \<^verbatim>\<open>yaml.safe_load\<close> returns for \<^verbatim>\<open>protocols.yaml\<close>, a
  mapping from protocol names to protocol definitions. The file is not part of the
  sources, so the catalog is an argument of the model. The records fix the shape that
  the meta-schema asks for (the keys, and which of them are mappings or lists); the
  conditions on the contents are checked by the schemas below. An absent optional key
  is \<open>None\<close>.

  The parameters of a constraint are nothing (\<open>NoParams\<close>), a list, a mapping, or some
  other value (\<open>ScalarParams\<close>, for a number, a string or a truth value). A parameter
  mapping is an object that \<^verbatim>\<open>generate_arg_schema\<close> changes in place, and the loader of
  YAML returns one object for a mapping that the file names with an anchor and uses
  again through an alias. So the catalog holds the address of a parameter mapping
  (\<open>DictParams\<close>), and a store gives the contents of the mapping at each address: two
  constraints with the same address share one mapping. No other node of the catalog is
  changed by the module; those are kept as values.
\<close>

type_synonym addr = nat
type_synonym store = "addr \<Rightarrow> (string \<times> pyval) list"

datatype params =
    NoParams
  | ListParams "pyval list"
  | DictParams addr
  | ScalarParams pyval

record arg_def =
  arg_name :: string
  arg_type :: string
  arg_desc :: pyval
  arg_default :: "pyval option"
  arg_example :: "pyval option"
  arg_schema :: "(string \<times> params) list option"

record proto_def =
  proto_desc :: pyval
  proto_type :: pyval
  proto_link :: "pyval option"
  proto_note :: "pyval option"
  proto_args :: "arg_def list"

type_synonym catalog = "(string \<times> proto_def) list"

text \<open>
  \<^verbatim>\<open>
  def generate_arg_schema(arg):
      arg_type = arg["type"]
      if arg_type[-2:] == "[]":
          type_cv = vol.All(coerce_list, [CPP_TYPES[arg_type[:-2]]])
      else:
          type_cv = CPP_TYPES[arg_type]
      val = [type_cv]
      if "schema" in arg:
          for cv, a in arg["schema"].items():
              if a is None:
                  val.append(SCHEMA_VALIDATORS[cv])
              elif isinstance(a, list):
                  val.append(SCHEMA_VALIDATORS[cv](*a))
              elif isinstance(a, dict):
                  if "args" in a and isinstance(a["args"], list):
                      posargs = a["args"]
                      del a["args"]
                  else:
                      posargs = []
                  val.append(SCHEMA_VALIDATORS[cv](*posargs, **a))
      if len(val) == 1:
          val = val[0]
      else:
          val = vol.All(*val)
      return val
  \<close>
  The function changes its argument: \<^verbatim>\<open>del a["args"]\<close> removes the key from the
  parameter mapping itself. The model returns the validator together with the store as
  the call leaves it; a constraint that is compiled later from the same mapping finds
  it without the key.
\<close>

definition type_validator :: "pylib \<Rightarrow> string \<Rightarrow> validator result" where
  "type_validator lib t =
     (if drop (length t - 2) t = ''[]'' then
        (case map_of (CPP_TYPES lib) (take (length t - 2) t) of
           None \<Rightarrow> Inl (KeyError (PStr (take (length t - 2) t)))
         | Some f \<Rightarrow> Inr (vol_All [coerce_list, vol_list f]))
      else
        (case map_of (CPP_TYPES lib) t of
           None \<Rightarrow> Inl (KeyError (PStr t))
         | Some f \<Rightarrow> Inr f))"

definition del_key :: "string \<Rightarrow> (string \<times> 'a) list \<Rightarrow> (string \<times> 'a) list" where
  "del_key k d = filter (\<lambda>(k', v). k' \<noteq> k) d"

definition call_validator ::
  "pylib \<Rightarrow> string \<Rightarrow> pyval list \<Rightarrow> (string \<times> pyval) list \<Rightarrow> validator result" where
  "call_validator lib cv posargs kwargs =
     (if cv \<in> set validator_names then lib_call lib cv posargs kwargs
      else Inl (KeyError (PStr cv)))"

fun schema_item ::
  "pylib \<Rightarrow> store \<Rightarrow> string \<times> params \<Rightarrow> (validator option \<times> store) result" where
  "schema_item lib store (cv, NoParams) =
     (case bare_validator lib cv of
        None \<Rightarrow> Inl (KeyError (PStr cv))
      | Some f \<Rightarrow> Inr (Some f, store))"
| "schema_item lib store (cv, ListParams a) =
     (case call_validator lib cv a [] of
        Inl e \<Rightarrow> Inl e
      | Inr f \<Rightarrow> Inr (Some f, store))"
| "schema_item lib store (cv, DictParams r) =
     (case map_of (store r) ''args'' of
        Some (PList posargs) \<Rightarrow>
          (case call_validator lib cv posargs (del_key ''args'' (store r)) of
             Inl e \<Rightarrow> Inl e
           | Inr f \<Rightarrow> Inr (Some f, store(r := del_key ''args'' (store r))))
      | _ \<Rightarrow>
          (case call_validator lib cv [] (store r) of
             Inl e \<Rightarrow> Inl e
           | Inr f \<Rightarrow> Inr (Some f, store)))"
| "schema_item lib store (cv, ScalarParams a) = Inr (None, store)"

fun schema_items ::
  "pylib \<Rightarrow> store \<Rightarrow> (string \<times> params) list \<Rightarrow> (validator list \<times> store) result" where
  "schema_items lib store [] = Inr ([], store)"
| "schema_items lib store (item # items) =
     (case schema_item lib store item of
        Inl e \<Rightarrow> Inl e
      | Inr (f, store') \<Rightarrow>
          (case schema_items lib store' items of
             Inl e \<Rightarrow> Inl e
           | Inr (fs, store'') \<Rightarrow>
               Inr ((case f of None \<Rightarrow> fs | Some g \<Rightarrow> g # fs), store'')))"

definition generate_arg_schema :: "pylib \<Rightarrow> store \<Rightarrow> arg_def \<Rightarrow> (validator \<times> store) result" where
  "generate_arg_schema lib store arg =
     (case type_validator lib (arg_type arg) of
        Inl e \<Rightarrow> Inl e
      | Inr type_cv \<Rightarrow>
          (case arg_schema arg of
             None \<Rightarrow> Inr (type_cv, store)
           | Some items \<Rightarrow>
               (case schema_items lib store items of
                  Inl e \<Rightarrow> Inl e
                | Inr (vals, store') \<Rightarrow>
                    Inr (if length (type_cv # vals) = 1 then type_cv
                         else vol_All (type_cv # vals),
                         store'))))"

text \<open>
  \<^verbatim>\<open>
  def validate_default(arg):
      if "default" not in arg:
          return arg
      val = generate_arg_schema(arg)
      try:
          arg["default"] = val(arg["default"])
          return arg
      except vol.Invalid as err:
          raise vol.Invalid(
              f"Error in default value for argument <{arg['name']}> {err.msg}")
  \<close>
  The result is the definition with the validated default in the place of the declared
  one, and the store as \<^verbatim>\<open>generate_arg_schema\<close> leaves it.
\<close>

definition validate_default :: "pylib \<Rightarrow> store \<Rightarrow> arg_def \<Rightarrow> (arg_def \<times> store) result" where
  "validate_default lib store arg =
     (case arg_default arg of
        None \<Rightarrow> Inr (arg, store)
      | Some d \<Rightarrow>
          (case generate_arg_schema lib store arg of
             Inl e \<Rightarrow> Inl e
           | Inr (val, store') \<Rightarrow>
               (case val d of
                  Inr d' \<Rightarrow> Inr (arg\<lparr>arg_default := Some d'\<rparr>, store')
                | Inl (Invalid (m, p) es) \<Rightarrow>
                    invalid (DefaultValueError (arg_name arg) m)
                | Inl e \<Rightarrow> Inl e)))"

section \<open>The definition loader\<close>

text \<open>
  \<^verbatim>\<open>
  valid_name = vol.All(string_strict,
      vol.Match(r"^[a-zA-Z_][a-zA-Z0-9_]*$", msg="Invalid characters for an identifier name"))
  \<close>
  \<^verbatim>\<open>$\<close> also matches in front of a line feed that ends the string.
\<close>

definition ident_start :: "char \<Rightarrow> bool" where
  "ident_start c = (let n = (of_char c :: nat) in
     (97 \<le> n \<and> n \<le> 122) \<or> (65 \<le> n \<and> n \<le> 90) \<or> n = 95)"

definition ident_char :: "char \<Rightarrow> bool" where
  "ident_char c = (let n = (of_char c :: nat) in
     (97 \<le> n \<and> n \<le> 122) \<or> (65 \<le> n \<and> n \<le> 90) \<or> (48 \<le> n \<and> n \<le> 57) \<or> n = 95)"

definition is_identifier :: "string \<Rightarrow> bool" where
  "is_identifier s =
     (case s of
        [] \<Rightarrow> False
      | c # cs \<Rightarrow>
          ident_start c \<and>
          (list_all ident_char cs \<or>
           (cs \<noteq> [] \<and> last cs = newline \<and> list_all ident_char (butlast cs))))"

definition valid_name :: "string \<Rightarrow> string result" where
  "valid_name s = (if is_identifier s then Inr s else invalid InvalidIdentifier)"

text \<open>The errors of the value under one key of a mapping, with the key put in front.\<close>

fun key_errors :: "string \<Rightarrow> 'a result \<Rightarrow> (msg \<times> pyval list) list" where
  "key_errors k (Inl (Invalid e es)) = map (under (PStr k)) (e # es)"
| "key_errors k r = []"

fun opt_validate :: "validator \<Rightarrow> pyval option \<Rightarrow> pyval option result" where
  "opt_validate f None = Inr None"
| "opt_validate f (Some v) = (case f v of Inl e \<Rightarrow> Inl e | Inr v' \<Rightarrow> Inr (Some v'))"

fun result_value :: "'a \<Rightarrow> 'a result \<Rightarrow> 'a" where
  "result_value d (Inr v) = v"
| "result_value d (Inl e) = d"

text \<open>
  \<^verbatim>\<open>
  SCHEMA_SCHEMA = vol.Schema(
      {vol.Any(*list(SCHEMA_VALIDATORS)): vol.Any([valid], vol.Schema({}, extra=True), None)})
  \<close>
  Every key must be the name of a constraint, and its parameters a list, a mapping or
  nothing. voluptuous never changes the value it validates: the result is a new mapping,
  and in it every parameter mapping is a new object with the contents of the given one
  (\<open>schema_copy\<close>: the copy of the parameters at position \<open>i\<close> gets the address \<open>i\<close> in
  a store of its own, so no two constraints of the copy share a mapping).
\<close>

fun schema_param_errors :: "string \<times> params \<Rightarrow> (msg \<times> pyval list) list" where
  "schema_param_errors (cv, a) =
     (if cv \<notin> set validator_names then [(ExtraKeysNotAllowed, [PStr cv])]
      else (case a of
              NoParams \<Rightarrow> []
            | ListParams xs \<Rightarrow> []
            | DictParams r \<Rightarrow> []
            | ScalarParams v \<Rightarrow> [(ExpectedList, [PStr cv])]))"

definition schema_copy ::
  "store \<Rightarrow> (string \<times> params) list \<Rightarrow> (string \<times> params) list \<times> store" where
  "schema_copy store items =
     (map (\<lambda>(i, (cv, a)). (cv, case a of DictParams r \<Rightarrow> DictParams i | _ \<Rightarrow> a))
        (enumerate 0 items),
      (\<lambda>i. if i < length items
            then (case snd (items ! i) of DictParams r \<Rightarrow> store r | _ \<Rightarrow> [])
            else []))"

definition SCHEMA_SCHEMA ::
  "store \<Rightarrow> (string \<times> params) list \<Rightarrow> ((string \<times> params) list \<times> store) result" where
  "SCHEMA_SCHEMA store items =
     raise_all (concat (map schema_param_errors items)) (schema_copy store items)"

fun opt_schema ::
  "store \<Rightarrow> (string \<times> params) list option \<Rightarrow>
   ((string \<times> params) list \<times> store) option result" where
  "opt_schema store None = Inr None"
| "opt_schema store (Some items) =
     (case SCHEMA_SCHEMA store items of Inl e \<Rightarrow> Inl e | Inr c \<Rightarrow> Inr (Some c))"

definition any_of :: "pyval list \<Rightarrow> validator" where
  "any_of allowed v = (if v \<in> set allowed then Inr v else invalid NotAValidValue)"

text \<open>
  \<^verbatim>\<open>
  ARGS_SCHEMA = vol.All(
      vol.Schema({
          vol.Required("name"): valid_name,
          vol.Required("type"): vol.Any(*VALID_TYPES),
          vol.Required("desc"): string,
          vol.Optional("default"): valid,
          vol.Optional("example"): string,
          vol.Optional("schema"): SCHEMA_SCHEMA,
      }),
      validate_default,
  )
  \<close>
  The mapping schema validates the value of every key and raises the collected errors
  together; its result is a new mapping holding the validated values.
  \<^verbatim>\<open>validate_default\<close> then works on that new mapping: the parameter mappings that it
  changes are the copies, and the default that it replaces is the default of the copy.
  The store of the copies is not kept, because nothing reads the copies afterwards.
\<close>

definition ARGS_SCHEMA :: "pylib \<Rightarrow> store \<Rightarrow> arg_def \<Rightarrow> arg_def result" where
  "ARGS_SCHEMA lib store arg =
     (let r_name = valid_name (arg_name arg);
          r_type = any_of (map PStr VALID_TYPES) (PStr (arg_type arg));
          r_desc = string lib (arg_desc arg);
          r_default = opt_validate valid (arg_default arg);
          r_example = opt_validate (string lib) (arg_example arg);
          r_schema = opt_schema store (arg_schema arg);
          errors = key_errors ''name'' r_name @ key_errors ''type'' r_type @
                   key_errors ''desc'' r_desc @ key_errors ''default'' r_default @
                   key_errors ''example'' r_example @ key_errors ''schema'' r_schema
      in case errors of
           e # es \<Rightarrow> Inl (Invalid e es)
         | [] \<Rightarrow>
             (let copy = result_value None r_schema
              in case validate_default lib
                        (case copy of Some (items, copies) \<Rightarrow> copies | None \<Rightarrow> store)
                        \<lparr>arg_name = result_value (arg_name arg) r_name,
                         arg_type = arg_type arg,
                         arg_desc = result_value (arg_desc arg) r_desc,
                         arg_default = result_value (arg_default arg) r_default,
                         arg_example = result_value (arg_example arg) r_example,
                         arg_schema = map_option fst copy\<rparr> of
                   Inl e \<Rightarrow> Inl e
                 | Inr (arg', copies') \<Rightarrow> Inr arg'))"

text \<open>
  The list schema \<^verbatim>\<open>[ARGS_SCHEMA]\<close>, with the rules of \<open>vol_list_loop\<close>.
\<close>

fun args_list_loop ::
  "pylib \<Rightarrow> store \<Rightarrow> nat \<Rightarrow> arg_def list \<Rightarrow> arg_def list \<Rightarrow> (msg \<times> pyval list) list \<Rightarrow>
   arg_def list result" where
  "args_list_loop lib store i [] out errors =
     raise_all errors out"
| "args_list_loop lib store i (x # xs) out errors =
     (case ARGS_SCHEMA lib store x of
        Inr y \<Rightarrow> args_list_loop lib store (Suc i) xs (out @ [y]) errors
      | Inl (Invalid (m, p) es) \<Rightarrow>
          if p \<noteq> [] then Inl (prepend (PInt (int i)) (Invalid (m, p) es))
          else args_list_loop lib store (Suc i) xs out
                 (errors @ map (under (PInt (int i))) ((m, p) # es))
      | Inl e \<Rightarrow> Inl e)"

text \<open>
  \<^verbatim>\<open>
  def unique_field_value(field):
      def validator(value):
          vol.Schema(vol.Unique())([a[field] for a in value])
          return value
      return validator

  PROTOCOL_DEF_SCHEMA = vol.Schema({
      vol.Required("desc"): string,
      vol.Required("type"): vol.Any("IR", "RF", "IR/RF"),
      vol.Optional("link"): [vol.Url],
      vol.Optional("note"): string,
      vol.Required("args"): vol.All(
          [ARGS_SCHEMA], vol.Length(min=1), unique_field_value("name")),
  })
  \<close>
  \<^verbatim>\<open>vol.Url\<close> is a factory like \<^verbatim>\<open>vol.Boolean\<close>: each link becomes a function object.
\<close>

definition args_schema :: "pylib \<Rightarrow> store \<Rightarrow> arg_def list \<Rightarrow> arg_def list result" where
  "args_schema lib store args =
     (case args_list_loop lib store 0 args [] [] of
        Inl e \<Rightarrow> Inl e
      | Inr out \<Rightarrow>
          if length out < 1 then invalid (LengthAtLeast 1)
          else if \<not> distinct (map arg_name out) then invalid ContainsDuplicates
          else Inr out)"

fun crash_of :: "'a result \<Rightarrow> error option" where
  "crash_of (Inl (Invalid e es)) = None"
| "crash_of (Inl e) = Some e"
| "crash_of (Inr v) = None"

definition PROTOCOL_DEF_SCHEMA :: "pylib \<Rightarrow> store \<Rightarrow> proto_def \<Rightarrow> proto_def result" where
  "PROTOCOL_DEF_SCHEMA lib store pd =
     (let r_desc = string lib (proto_desc pd);
          r_type = any_of [PStr ''IR'', PStr ''RF'', PStr ''IR/RF''] (proto_type pd);
          r_link = opt_validate (vol_list (\<lambda>v. Inr (PCallable v))) (proto_link pd);
          r_note = opt_validate (string lib) (proto_note pd);
          r_args = args_schema lib store (proto_args pd);
          errors = key_errors ''desc'' r_desc @ key_errors ''type'' r_type @
                   key_errors ''link'' r_link @ key_errors ''note'' r_note @
                   key_errors ''args'' r_args
      in case crash_of r_args of
           Some e \<Rightarrow> Inl e
         | None \<Rightarrow>
             raise_all errors
               \<lparr>proto_desc = result_value (proto_desc pd) r_desc,
                proto_type = proto_type pd,
                proto_link = result_value (proto_link pd) r_link,
                proto_note = result_value (proto_note pd) r_note,
                proto_args = result_value (proto_args pd) r_args\<rparr>)"

text \<open>
  \<^verbatim>\<open>PROTOCOLS_SCHEMA = vol.Schema({valid_name: PROTOCOL_DEF_SCHEMA})\<close>: a key that is
  not an identifier is an extra key.
\<close>

fun protocols_loop ::
  "pylib \<Rightarrow> store \<Rightarrow> catalog \<Rightarrow> catalog \<Rightarrow> (msg \<times> pyval list) list \<Rightarrow> catalog result" where
  "protocols_loop lib store [] out errors =
     raise_all errors out"
| "protocols_loop lib store ((name, pd) # rest) out errors =
     (case valid_name name of
        Inl e \<Rightarrow>
          protocols_loop lib store rest out (errors @ [(ExtraKeysNotAllowed, [PStr name])])
      | Inr name' \<Rightarrow>
          (case PROTOCOL_DEF_SCHEMA lib store pd of
             Inr pd' \<Rightarrow> protocols_loop lib store rest (out @ [(name', pd')]) errors
           | Inl (Invalid e es) \<Rightarrow>
               protocols_loop lib store rest out (errors @ map (under (PStr name)) (e # es))
           | Inl e \<Rightarrow> Inl e))"

definition PROTOCOLS_SCHEMA :: "pylib \<Rightarrow> store \<Rightarrow> catalog \<Rightarrow> catalog result" where
  "PROTOCOLS_SCHEMA lib store proto_yaml = protocols_loop lib store proto_yaml [] []"

text \<open>
  \<^verbatim>\<open>
  def load_protocols():
      path = pathlib.Path(__file__).parent.resolve()
      with codecs.open(path / PROTOCOLS_YAML, "r", encoding="utf-8") as f_handle:
          proto_yaml = yaml.safe_load(f_handle)
      # validate file - first pass (without defaults)
      PROTOCOLS_SCHEMA(proto_yaml)
      return proto_yaml
  \<close>
  The result of the schema is dropped: the function returns the catalog as it was
  read, or raises what the schema raises. The schema has changed copies only, so the
  store is as it was read, too. \<open>store\<close> and \<open>proto_yaml\<close> stand for the file.
\<close>

definition load_protocols :: "pylib \<Rightarrow> store \<Rightarrow> catalog \<Rightarrow> catalog result" where
  "load_protocols lib store proto_yaml =
     (case PROTOCOLS_SCHEMA lib store proto_yaml of
        Inl e \<Rightarrow> Inl e
      | Inr validated \<Rightarrow> Inr proto_yaml)"

section \<open>The protocol schema generator\<close>

text \<open>
  A mapping schema of voluptuous with the keys \<^verbatim>\<open>vol.Required(name)\<close> and
  \<^verbatim>\<open>vol.Optional(name, default=d)\<close>. Validation copies the given pairs, adds the
  default of every optional key that is absent, validates each value with the validator
  of its key (a key without one is an extra key), and reports the required keys that
  are missing. The errors are collected and raised together; an exception that is not
  \<^verbatim>\<open>vol.Invalid\<close> is raised at once. The result is a new mapping. (voluptuous visits
  the defaults and the missing keys in the order of a hash set; the model takes the
  order of the schema.)
\<close>

datatype marker = Required string | Optional string pyval

fun marker_name :: "marker \<Rightarrow> string" where
  "marker_name (Required n) = n"
| "marker_name (Optional n d) = n"

type_synonym schema_entries = "(marker \<times> validator) list"

text \<open>\<^verbatim>\<open>d[k] = v\<close> on a dictionary.\<close>

fun dict_set :: "string \<Rightarrow> 'a \<Rightarrow> (string \<times> 'a) list \<Rightarrow> (string \<times> 'a) list" where
  "dict_set k v [] = [(k, v)]"
| "dict_set k v ((k', v') # rest) =
     (if k' = k then (k, v) # rest else (k', v') # dict_set k v rest)"

fun default_pairs :: "(marker \<times> 'f) list \<Rightarrow> (string \<times> pyval) list \<Rightarrow> (string \<times> pyval) list" where
  "default_pairs [] kvm = kvm"
| "default_pairs ((Optional n d, f) # es) kvm =
     (if n \<in> fst ` set kvm then default_pairs es kvm else default_pairs es (kvm @ [(n, d)]))"
| "default_pairs ((Required n, f) # es) kvm = default_pairs es kvm"

fun find_entry :: "(marker \<times> 'f) list \<Rightarrow> string \<Rightarrow> 'f option" where
  "find_entry [] k = None"
| "find_entry ((m, f) # es) k = (if marker_name m = k then Some f else find_entry es k)"

fun mapping_loop ::
  "schema_entries \<Rightarrow> (string \<times> pyval) list \<Rightarrow> (string \<times> pyval) list \<Rightarrow>
   (msg \<times> pyval list) list \<Rightarrow> ((string \<times> pyval) list \<times> (msg \<times> pyval list) list) result" where
  "mapping_loop entries [] out errors = Inr (out, errors)"
| "mapping_loop entries ((k, v) # kvm) out errors =
     (case find_entry entries k of
        None \<Rightarrow> mapping_loop entries kvm out (errors @ [(ExtraKeysNotAllowed, [PStr k])])
      | Some f \<Rightarrow>
          (case f v of
             Inr v' \<Rightarrow> mapping_loop entries kvm (dict_set k v' out) errors
           | Inl (Invalid e es) \<Rightarrow>
               mapping_loop entries kvm out (errors @ map (under (PStr k)) (e # es))
           | Inl e \<Rightarrow> Inl e))"

fun missing_required :: "(marker \<times> 'f) list \<Rightarrow> (string \<times> pyval) list \<Rightarrow> (msg \<times> pyval list) list" where
  "missing_required [] kvm = []"
| "missing_required ((Required n, f) # es) kvm =
     (if n \<in> fst ` set kvm then missing_required es kvm
      else (RequiredKeyNotProvided, [PStr n]) # missing_required es kvm)"
| "missing_required ((Optional n d, f) # es) kvm = missing_required es kvm"

definition vol_mapping ::
  "schema_entries \<Rightarrow> (string \<times> pyval) list \<Rightarrow> (string \<times> pyval) list result" where
  "vol_mapping entries data =
     (let kvm = default_pairs entries data
      in case mapping_loop entries kvm [] [] of
           Inl e \<Rightarrow> Inl e
         | Inr (out, errors) \<Rightarrow>
             raise_all (errors @ missing_required entries kvm) out)"

text \<open>
  \<^verbatim>\<open>
  def dict_to_list(keys):
      def converter(value):
          return [value[k] for k in keys]
      return converter
  \<close>
\<close>

fun dict_to_list :: "string list \<Rightarrow> (string \<times> pyval) list \<Rightarrow> pyval list result" where
  "dict_to_list [] value = Inr []"
| "dict_to_list (k # keys) value =
     (case map_of value k of
        None \<Rightarrow> Inl (KeyError (PStr k))
      | Some v \<Rightarrow>
          (case dict_to_list keys value of Inl e \<Rightarrow> Inl e | Inr vs \<Rightarrow> Inr (v # vs)))"

text \<open>
  \<^verbatim>\<open>
  def generate_proto_schema(protocols):
      schemas = {}
      for proto_name, proto_def in protocols.items():
          schemas[proto_name] = {}
          names = []
          for arg in proto_def["args"]:
              if "default" in arg:
                  key = vol.Optional(arg["name"], default=arg["default"])
              else:
                  key = vol.Required(arg["name"])
              names.append(arg["name"])
              schemas[proto_name][key] = generate_arg_schema(arg)
          schemas[proto_name] = vol.All(
              vol.Schema(schemas[proto_name]), dict_to_list(names))
      return schemas
  \<close>
  A compiled protocol schema is kept as the mapping schema and the list of names it
  was built from; \<open>run_proto_schema\<close> applies it. Two markers with the same name are
  one key of the dictionary: the first marker stays and the validator is replaced. The
  store goes from one call of \<^verbatim>\<open>generate_arg_schema\<close> to the next, through the
  arguments of a protocol and through the protocols, and is returned with the schemas.
\<close>

record proto_schema =
  schema_entries_of :: schema_entries
  schema_names :: "string list"

fun set_entry :: "marker \<Rightarrow> validator \<Rightarrow> schema_entries \<Rightarrow> schema_entries" where
  "set_entry key f [] = [(key, f)]"
| "set_entry key f ((m, g) # es) =
     (if marker_name m = marker_name key then (m, f) # es else (m, g) # set_entry key f es)"

definition arg_key :: "arg_def \<Rightarrow> marker" where
  "arg_key arg =
     (case arg_default arg of
        Some d \<Rightarrow> Optional (arg_name arg) d
      | None \<Rightarrow> Required (arg_name arg))"

fun args_entries ::
  "pylib \<Rightarrow> store \<Rightarrow> arg_def list \<Rightarrow> schema_entries \<Rightarrow> string list \<Rightarrow>
   (proto_schema \<times> store) result" where
  "args_entries lib store [] entries names =
     Inr (\<lparr>schema_entries_of = entries, schema_names = names\<rparr>, store)"
| "args_entries lib store (arg # args) entries names =
     (let key = arg_key arg
      in case generate_arg_schema lib store arg of
           Inl e \<Rightarrow> Inl e
         | Inr (f, store') \<Rightarrow>
             args_entries lib store' args (set_entry key f entries) (names @ [arg_name arg]))"

fun generate_proto_schema ::
  "pylib \<Rightarrow> store \<Rightarrow> catalog \<Rightarrow> ((string \<times> proto_schema) list \<times> store) result" where
  "generate_proto_schema lib store [] = Inr ([], store)"
| "generate_proto_schema lib store ((proto_name, pd) # protocols) =
     (case args_entries lib store (proto_args pd) [] [] of
        Inl e \<Rightarrow> Inl e
      | Inr (ps, store') \<Rightarrow>
          (case generate_proto_schema lib store' protocols of
             Inl e \<Rightarrow> Inl e
           | Inr (schemas, store'') \<Rightarrow> Inr ((proto_name, ps) # schemas, store'')))"

definition run_proto_schema :: "proto_schema \<Rightarrow> (string \<times> pyval) list \<Rightarrow> pyval result" where
  "run_proto_schema ps data =
     (case vol_mapping (schema_entries_of ps) data of
        Inl e \<Rightarrow> Inl e
      | Inr out \<Rightarrow>
          (case dict_to_list (schema_names ps) out of
             Inl e \<Rightarrow> Inl e
           | Inr vs \<Rightarrow> Inr (PList vs)))"

section \<open>The registry and the command parser\<close>

text \<open>
  \<^verbatim>\<open>PROTO_CACHE\<close> is a module-level dictionary with the keys \<^verbatim>\<open>"proto_def"\<close>,
  \<^verbatim>\<open>"proto_schema"\<close> and \<^verbatim>\<open>"valid_protocols"\<close>; a key that has not been set is
  \<open>None\<close>. The definitions under \<^verbatim>\<open>"proto_def"\<close> are the catalog itself, so the
  registry also holds the store of the parameter mappings that the catalog refers to.
  \<^verbatim>\<open>
  def initialize():
      PROTO_CACHE[PROTO_DEF] = load_protocols()
      PROTO_CACHE[PROTO_SCHEMA] = generate_proto_schema(PROTO_CACHE[PROTO_DEF])
      PROTO_CACHE[VALID_PROTOCOLS] = list(PROTO_CACHE[PROTO_DEF])
  \<close>
  The module calls \<^verbatim>\<open>initialize()\<close> when it is imported; an exception there ends the
  import, and no registry exists.
\<close>

record proto_cache =
  cache_def :: "catalog option"
  cache_schema :: "(string \<times> proto_schema) list option"
  cache_valid :: "string list option"
  cache_store :: store

definition initialize :: "pylib \<Rightarrow> store \<Rightarrow> catalog \<Rightarrow> proto_cache result" where
  "initialize lib store proto_yaml =
     (case load_protocols lib store proto_yaml of
        Inl e \<Rightarrow> Inl e
      | Inr defs \<Rightarrow>
          (case generate_proto_schema lib store defs of
             Inl e \<Rightarrow> Inl e
           | Inr (schemas, store') \<Rightarrow>
               Inr \<lparr>cache_def = Some defs, cache_schema = Some schemas,
                     cache_valid = Some (map fst defs), cache_store = store'\<rparr>))"

text \<open>
  \<^verbatim>\<open>
  def validate_protocol_name(proto_name):
      string_strict(proto_name)
      proto_name = proto_name.lower()
      if PROTO_DEF not in PROTO_CACHE:
          raise vol.Invalid("Protocols not initialized")
      if proto_name not in PROTO_CACHE[PROTO_DEF]:
          raise vol.Invalid(f"Protocol '{proto_name}' is not defined")
      return proto_name
  \<close>
\<close>

definition validate_protocol_name :: "proto_cache \<Rightarrow> validator" where
  "validate_protocol_name cache proto_name =
     (case string_strict proto_name of
        Inl e \<Rightarrow> Inl e
      | Inr (PStr s) \<Rightarrow>
          (case cache_def cache of
             None \<Rightarrow> invalid ProtocolsNotInitialized
           | Some defs \<Rightarrow>
               if lower s \<notin> fst ` set defs then invalid (ProtocolNotDefined (lower s))
               else Inr (PStr (lower s)))
      | Inr w \<Rightarrow> invalid MustBeString)"

text \<open>
  \<^verbatim>\<open>
  def get_proto_def(proto_name):
      validate_protocol_name(proto_name)
      return PROTO_CACHE[PROTO_DEF][proto_name]
  \<close>
  The normalised name that \<^verbatim>\<open>validate_protocol_name\<close> returns is not used: the look-up
  is by the name as given.
\<close>

definition get_proto_def :: "proto_cache \<Rightarrow> pyval \<Rightarrow> proto_def result" where
  "get_proto_def cache proto_name =
     (case validate_protocol_name cache proto_name of
        Inl e \<Rightarrow> Inl e
      | Inr checked \<Rightarrow>
          (case (cache_def cache, proto_name) of
             (Some defs, PStr s) \<Rightarrow>
               (case map_of defs s of
                  None \<Rightarrow> Inl (KeyError (PStr s))
                | Some pd \<Rightarrow> Inr pd)
           | _ \<Rightarrow> Inl (KeyError proto_name)))"

text \<open>
  \<^verbatim>\<open>
  def get_proto_signature(proto_name):
      arg_def = get_proto_def(proto_name)["args"]
      declaration = [proto_name]
      for arg in arg_def:
          name = f"{arg['type'].replace('_t', '')} {arg['name']}"
          if "default" in arg:
              declaration.append(f"<{name}?={arg['default']}>")
          else:
              declaration.append(f"<{name}>")
      return ":".join(declaration)
  \<close>
\<close>

fun remove_t :: "string \<Rightarrow> string" where
  "remove_t (a # b # cs) =
     (if a = CHR ''_'' \<and> b = CHR ''t'' then remove_t cs else a # remove_t (b # cs))"
| "remove_t cs = cs"

definition arg_declaration :: "pylib \<Rightarrow> arg_def \<Rightarrow> string" where
  "arg_declaration lib arg =
     (let name = remove_t (arg_type arg) @ '' '' @ arg_name arg
      in case arg_default arg of
           Some d \<Rightarrow> ''<'' @ name @ ''?='' @ py_str lib d @ ''>''
         | None \<Rightarrow> ''<'' @ name @ ''>'')"

fun join :: "string \<Rightarrow> string list \<Rightarrow> string" where
  "join sep [] = []"
| "join sep [x] = x"
| "join sep (x # y # ys) = x @ sep @ join sep (y # ys)"

definition get_proto_signature :: "pylib \<Rightarrow> proto_cache \<Rightarrow> pyval \<Rightarrow> string result" where
  "get_proto_signature lib cache proto_name =
     (case get_proto_def cache proto_name of
        Inl e \<Rightarrow> Inl e
      | Inr pd \<Rightarrow>
          Inr (join '':'' (py_str lib proto_name # map (arg_declaration lib) (proto_args pd))))"

text \<open>
  \<^verbatim>\<open>
  def args_to_dict(proto, args):
      proto_def = get_proto_def(proto)
      result = {}
      if len(proto_def["args"]) < len(args):
          raise vol.Invalid(
              f"Expected maximum {len(proto_def['args'])} arguments for protocol '{proto}'")
      for i, arg in enumerate(args):
          result[proto_def["args"][i]["name"]] = arg
      return result
  \<close>
  \<^verbatim>\<open>len\<close> and \<^verbatim>\<open>enumerate\<close> are defined on a list, on a string (its characters) and on
  a dictionary (its keys).
\<close>

fun py_items :: "pyval \<Rightarrow> pyval list option" where
  "py_items (PList xs) = Some xs"
| "py_items (PStr s) = Some (map (\<lambda>c. PStr [c]) s)"
| "py_items (PDict d) = Some (map (\<lambda>(k, v). PStr k) d)"
| "py_items v = None"

fun zip_args :: "arg_def list \<Rightarrow> pyval list \<Rightarrow> (string \<times> pyval) list \<Rightarrow> (string \<times> pyval) list" where
  "zip_args (a # as) (x # xs) result = zip_args as xs (dict_set (arg_name a) x result)"
| "zip_args as xs result = result"

definition args_to_dict :: "pylib \<Rightarrow> proto_cache \<Rightarrow> pyval \<Rightarrow> pyval \<Rightarrow> (string \<times> pyval) list result" where
  "args_to_dict lib cache proto args =
     (case get_proto_def cache proto of
        Inl e \<Rightarrow> Inl e
      | Inr pd \<Rightarrow>
          (case py_items args of
             None \<Rightarrow> Inl TypeError
           | Some xs \<Rightarrow>
               if length (proto_args pd) < length xs
               then invalid (ExpectedMaximumArguments (length (proto_args pd)) (py_str lib proto))
               else Inr (zip_args (proto_args pd) xs [])))"

text \<open>\<^verbatim>\<open>vol.Length(min, max)\<close>; a value without a length is refused.\<close>

definition vol_Length :: "nat option \<Rightarrow> nat option \<Rightarrow> validator" where
  "vol_Length mn mx v =
     (case py_items v of
        None \<Rightarrow> invalid LengthInvalidType
      | Some xs \<Rightarrow>
          (case mn of
             Some lo \<Rightarrow>
               if length xs < lo then invalid (LengthAtLeast lo)
               else (case mx of
                       Some hi \<Rightarrow> if hi < length xs then invalid (LengthAtMost hi) else Inr v
                     | None \<Rightarrow> Inr v)
           | None \<Rightarrow>
               (case mx of
                  Some hi \<Rightarrow> if hi < length xs then invalid (LengthAtMost hi) else Inr v
                | None \<Rightarrow> Inr v)))"

text \<open>
  \<^verbatim>\<open>
  def validate_command(command):
      command = vol.Schema({
          vol.Required("protocol"): validate_protocol_name,
          vol.Required("args"): vol.Length(min=1),
      })(command)
      try:
          args = args_to_dict(command["protocol"], command["args"])
          command["args"] = PROTO_CACHE[PROTO_SCHEMA][command["protocol"]](args)
          return command
      except vol.Invalid as err:
          signature = get_proto_signature(command["protocol"])
          if err.path:
              path = f"<{err.path[-1]}>: "
          else:
              path = ""
          raise vol.Invalid(
              f"Malformatted command for protocol '{command['protocol']}'.\n"
              f"Expected:   {signature}\n"
              f"Received:   {command}\n"
              f"ERROR:      {path}{err.msg}")
  \<close>
  The command is a mapping; the schema returns a new one, and the assignment to
  \<^verbatim>\<open>command["args"]\<close> writes to that new mapping.
\<close>

definition lookup_schema :: "proto_cache \<Rightarrow> string \<Rightarrow> proto_schema result" where
  "lookup_schema cache name =
     (case cache_schema cache of
        None \<Rightarrow> Inl (KeyError (PStr ''proto_schema''))
      | Some schemas \<Rightarrow>
          (case map_of schemas name of
             None \<Rightarrow> Inl (KeyError (PStr name))
           | Some ps \<Rightarrow> Inr ps))"

definition validate_args :: "pylib \<Rightarrow> proto_cache \<Rightarrow> pyval \<Rightarrow> pyval \<Rightarrow> pyval result" where
  "validate_args lib cache proto raw =
     (case args_to_dict lib cache proto raw of
        Inl e \<Rightarrow> Inl e
      | Inr args \<Rightarrow>
          (case lookup_schema cache (py_str lib proto) of
             Inl e \<Rightarrow> Inl e
           | Inr ps \<Rightarrow> run_proto_schema ps args))"

definition validate_command ::
  "pylib \<Rightarrow> proto_cache \<Rightarrow> (string \<times> pyval) list \<Rightarrow> (string \<times> pyval) list result" where
  "validate_command lib cache command =
     (case vol_mapping
             [(Required ''protocol'', validate_protocol_name cache),
              (Required ''args'', vol_Length (Some 1) None)] command of
        Inl e \<Rightarrow> Inl e
      | Inr command' \<Rightarrow>
          (case (map_of command' ''protocol'', map_of command' ''args'') of
             (Some proto, Some raw) \<Rightarrow>
               (case validate_args lib cache proto raw of
                  Inr args \<Rightarrow> Inr (dict_set ''args'' args command')
                | Inl (Invalid (m, p) es) \<Rightarrow>
                    (case get_proto_signature lib cache proto of
                       Inl e \<Rightarrow> Inl e
                     | Inr signature \<Rightarrow>
                         invalid (MalformattedCommand (py_str lib proto) signature command'
                           (if p = [] then None else Some (last p)) m))
                | Inl e \<Rightarrow> Inl e)
           | _ \<Rightarrow> Inl (KeyError (PStr ''protocol''))))"

text \<open>
  \<^verbatim>\<open>
  def validate_send_command(command):
      command = string_strict(command)
      command_list = quoted_split(command, ":")
      if len(command_list) <= 1:
          raise vol.Invalid(
              "Command string needs to have at least a protocol and a parameter list")
      return validate_command({"protocol": command_list[0], "args": command_list[1:]})
  \<close>
\<close>

definition validate_send_command ::
  "pylib \<Rightarrow> proto_cache \<Rightarrow> pyval \<Rightarrow> (string \<times> pyval) list result" where
  "validate_send_command lib cache command =
     (case string_strict command of
        Inl e \<Rightarrow> Inl e
      | Inr (PStr s) \<Rightarrow>
          (case quoted_split s (CHR '':'') of
             [] \<Rightarrow> invalid NeedsProtocolAndParameters
           | [p] \<Rightarrow> invalid NeedsProtocolAndParameters
           | p # args \<Rightarrow>
               validate_command lib cache
                 [(''protocol'', PStr p), (''args'', PList (map PStr args))])
      | Inr w \<Rightarrow> invalid MustBeString)"

section \<open>The operations as procedures on the registry\<close>

text \<open>
  The functions above give the result of an operation as a function of the registry
  that it reads. Here the same functions of the source are written as procedures: each
  takes the registry and returns its result together with the registry as it leaves
  it, and hands the registry it got from one call to the next call. A validator that a
  schema calls is a procedure, too (\<^verbatim>\<open>validate_protocol_name\<close> is the validator of
  the key \<^verbatim>\<open>"protocol"\<close>), so \<open>mapping_loop_st\<close> is \<open>mapping_loop\<close> with the state
  passed through the validators. The compiled schema of a protocol is made of
  validators that do not refer to \<^verbatim>\<open>PROTO_CACHE\<close>.
\<close>

fun mapping_loop_st ::
  "(marker \<times> (pyval \<Rightarrow> 's \<Rightarrow> pyval result \<times> 's)) list \<Rightarrow> (string \<times> pyval) list \<Rightarrow>
   (string \<times> pyval) list \<Rightarrow> (msg \<times> pyval list) list \<Rightarrow> 's \<Rightarrow>
   ((string \<times> pyval) list \<times> (msg \<times> pyval list) list) result \<times> 's" where
  "mapping_loop_st entries [] out errors s = (Inr (out, errors), s)"
| "mapping_loop_st entries ((k, v) # kvm) out errors s =
     (case find_entry entries k of
        None \<Rightarrow>
          mapping_loop_st entries kvm out (errors @ [(ExtraKeysNotAllowed, [PStr k])]) s
      | Some f \<Rightarrow>
          (case f v s of
             (Inr v', s') \<Rightarrow> mapping_loop_st entries kvm (dict_set k v' out) errors s'
           | (Inl (Invalid e es), s') \<Rightarrow>
               mapping_loop_st entries kvm out (errors @ map (under (PStr k)) (e # es)) s'
           | (Inl e, s') \<Rightarrow> (Inl e, s')))"

definition vol_mapping_st ::
  "(marker \<times> (pyval \<Rightarrow> 's \<Rightarrow> pyval result \<times> 's)) list \<Rightarrow> (string \<times> pyval) list \<Rightarrow> 's \<Rightarrow>
   (string \<times> pyval) list result \<times> 's" where
  "vol_mapping_st entries data s =
     (let kvm = default_pairs entries data
      in case mapping_loop_st entries kvm [] [] s of
           (Inl e, s') \<Rightarrow> (Inl e, s')
         | (Inr (out, errors), s') \<Rightarrow>
             (raise_all (errors @ missing_required entries kvm) out, s'))"

definition validate_protocol_name_st :: "pyval \<Rightarrow> proto_cache \<Rightarrow> pyval result \<times> proto_cache" where
  "validate_protocol_name_st proto_name cache =
     (case string_strict proto_name of
        Inl e \<Rightarrow> (Inl e, cache)
      | Inr (PStr s) \<Rightarrow>
          (case cache_def cache of
             None \<Rightarrow> (invalid ProtocolsNotInitialized, cache)
           | Some defs \<Rightarrow>
               if lower s \<notin> fst ` set defs then (invalid (ProtocolNotDefined (lower s)), cache)
               else (Inr (PStr (lower s)), cache))
      | Inr w \<Rightarrow> (invalid MustBeString, cache))"

definition get_proto_def_st :: "pyval \<Rightarrow> proto_cache \<Rightarrow> proto_def result \<times> proto_cache" where
  "get_proto_def_st proto_name cache =
     (case validate_protocol_name_st proto_name cache of
        (Inl e, cache') \<Rightarrow> (Inl e, cache')
      | (Inr checked, cache') \<Rightarrow>
          (case (cache_def cache', proto_name) of
             (Some defs, PStr s) \<Rightarrow>
               (case map_of defs s of
                  None \<Rightarrow> (Inl (KeyError (PStr s)), cache')
                | Some pd \<Rightarrow> (Inr pd, cache'))
           | _ \<Rightarrow> (Inl (KeyError proto_name), cache')))"

definition get_proto_signature_st ::
  "pylib \<Rightarrow> pyval \<Rightarrow> proto_cache \<Rightarrow> string result \<times> proto_cache" where
  "get_proto_signature_st lib proto_name cache =
     (case get_proto_def_st proto_name cache of
        (Inl e, cache') \<Rightarrow> (Inl e, cache')
      | (Inr pd, cache') \<Rightarrow>
          (Inr (join '':'' (py_str lib proto_name # map (arg_declaration lib) (proto_args pd))),
           cache'))"

definition args_to_dict_st ::
  "pylib \<Rightarrow> pyval \<Rightarrow> pyval \<Rightarrow> proto_cache \<Rightarrow> (string \<times> pyval) list result \<times> proto_cache" where
  "args_to_dict_st lib proto args cache =
     (case get_proto_def_st proto cache of
        (Inl e, cache') \<Rightarrow> (Inl e, cache')
      | (Inr pd, cache') \<Rightarrow>
          (case py_items args of
             None \<Rightarrow> (Inl TypeError, cache')
           | Some xs \<Rightarrow>
               if length (proto_args pd) < length xs
               then (invalid (ExpectedMaximumArguments (length (proto_args pd)) (py_str lib proto)),
                     cache')
               else (Inr (zip_args (proto_args pd) xs []), cache')))"

definition validate_args_st ::
  "pylib \<Rightarrow> pyval \<Rightarrow> pyval \<Rightarrow> proto_cache \<Rightarrow> pyval result \<times> proto_cache" where
  "validate_args_st lib proto raw cache =
     (case args_to_dict_st lib proto raw cache of
        (Inl e, cache') \<Rightarrow> (Inl e, cache')
      | (Inr args, cache') \<Rightarrow>
          (case lookup_schema cache' (py_str lib proto) of
             Inl e \<Rightarrow> (Inl e, cache')
           | Inr ps \<Rightarrow> (run_proto_schema ps args, cache')))"

definition validate_command_st ::
  "pylib \<Rightarrow> (string \<times> pyval) list \<Rightarrow> proto_cache \<Rightarrow> (string \<times> pyval) list result \<times> proto_cache" where
  "validate_command_st lib command cache =
     (case vol_mapping_st
             [(Required ''protocol'', validate_protocol_name_st),
              (Required ''args'', \<lambda>v s. (vol_Length (Some 1) None v, s))] command cache of
        (Inl e, cache1) \<Rightarrow> (Inl e, cache1)
      | (Inr command', cache1) \<Rightarrow>
          (case (map_of command' ''protocol'', map_of command' ''args'') of
             (Some proto, Some raw) \<Rightarrow>
               (case validate_args_st lib proto raw cache1 of
                  (Inr args, cache2) \<Rightarrow> (Inr (dict_set ''args'' args command'), cache2)
                | (Inl (Invalid (m, p) es), cache2) \<Rightarrow>
                    (case get_proto_signature_st lib proto cache2 of
                       (Inl e, cache3) \<Rightarrow> (Inl e, cache3)
                     | (Inr signature, cache3) \<Rightarrow>
                         (invalid (MalformattedCommand (py_str lib proto) signature command'
                            (if p = [] then None else Some (last p)) m),
                          cache3))
                | (Inl e, cache2) \<Rightarrow> (Inl e, cache2))
           | _ \<Rightarrow> (Inl (KeyError (PStr ''protocol'')), cache1)))"

definition validate_send_command_st ::
  "pylib \<Rightarrow> pyval \<Rightarrow> proto_cache \<Rightarrow> (string \<times> pyval) list result \<times> proto_cache" where
  "validate_send_command_st lib command cache =
     (case string_strict command of
        Inl e \<Rightarrow> (Inl e, cache)
      | Inr (PStr s) \<Rightarrow>
          (case quoted_split s (CHR '':'') of
             [] \<Rightarrow> (invalid NeedsProtocolAndParameters, cache)
           | [p] \<Rightarrow> (invalid NeedsProtocolAndParameters, cache)
           | p # args \<Rightarrow>
               validate_command_st lib
                 [(''protocol'', PStr p), (''args'', PList (map PStr args))] cache)
      | Inr w \<Rightarrow> (invalid MustBeString, cache))"

text \<open>
  The operations that collaborators call once the registry is ready, and a sequence of
  such calls: each call works on the registry that the call before it left.
\<close>

datatype operation =
    ValidateSendCommand pyval
  | ValidateCommand "(string \<times> pyval) list"
  | GetProtoDef pyval
  | GetProtoSignature pyval

datatype outcome =
    Command "(string \<times> pyval) list"
  | Definition proto_def
  | Signature string
  | Raised error

fun outcome_of :: "('a \<Rightarrow> outcome) \<Rightarrow> 'a result \<Rightarrow> outcome" where
  "outcome_of mk (Inr v) = mk v"
| "outcome_of mk (Inl e) = Raised e"

fun perform :: "pylib \<Rightarrow> operation \<Rightarrow> proto_cache \<Rightarrow> outcome \<times> proto_cache" where
  "perform lib (ValidateSendCommand command) cache =
     (case validate_send_command_st lib command cache of
        (r, cache') \<Rightarrow> (outcome_of Command r, cache'))"
| "perform lib (ValidateCommand command) cache =
     (case validate_command_st lib command cache of
        (r, cache') \<Rightarrow> (outcome_of Command r, cache'))"
| "perform lib (GetProtoDef proto_name) cache =
     (case get_proto_def_st proto_name cache of
        (r, cache') \<Rightarrow> (outcome_of Definition r, cache'))"
| "perform lib (GetProtoSignature proto_name) cache =
     (case get_proto_signature_st lib proto_name cache of
        (r, cache') \<Rightarrow> (outcome_of Signature r, cache'))"

fun perform_all :: "pylib \<Rightarrow> operation list \<Rightarrow> proto_cache \<Rightarrow> outcome list \<times> proto_cache" where
  "perform_all lib [] cache = ([], cache)"
| "perform_all lib (op # ops) cache =
     (let (r, cache') = perform lib op cache;
          (rs, cache'') = perform_all lib ops cache'
      in (r # rs, cache''))"

section \<open>Vocabulary of the properties\<close>

text \<open>
  \<open>cpp_type lib t v\<close> is \<^verbatim>\<open>CPP_TYPES[t](v)\<close>. \<open>coerces_integers f lo hi\<close> says what
  an integer rule with the inclusive bounds \<open>lo\<close> and \<open>hi\<close> does on every kind of
  value: a native integer (in Python a \<^verbatim>\<open>bool\<close> is one, with the values 0 and 1) is
  returned as it is when it lies within the bounds; a float must have no fractional part
  and is then treated as its integer value; a string is lower-cased and parsed in base
  16 when it starts with \<^verbatim>\<open>0x\<close> and in base 10 otherwise, and the number is then
  treated as a native integer; every other value fails.
\<close>

definition cpp_type :: "pylib \<Rightarrow> string \<Rightarrow> validator" where
  "cpp_type lib t v =
     (case map_of (CPP_TYPES lib) t of None \<Rightarrow> Inl (KeyError (PStr t)) | Some f \<Rightarrow> f v)"

definition bool_int :: "bool \<Rightarrow> int" where
  "bool_int b = (if b then 1 else 0)"

definition coerces_integers :: "validator \<Rightarrow> int \<Rightarrow> int \<Rightarrow> bool" where
  "coerces_integers f lo hi =
     ((\<forall>n. f (PInt n) =
         (if n < lo then invalid (ValueAtLeast lo)
          else if hi < n then invalid (ValueAtMost hi) else Inr (PInt n))) \<and>
      (\<forall>b. f (PBool b) =
         (if bool_int b < lo then invalid (ValueAtLeast lo)
          else if hi < bool_int b then invalid (ValueAtMost hi) else Inr (PBool b))) \<and>
      (\<forall>r. f (PFloat r) =
         (if of_int (py_trunc r) = r then f (PInt (py_trunc r)) else invalid HasFractionalPart)) \<and>
      (\<forall>s. f (PStr s) =
         (case py_int (lower s) (if startswith (lower s) ''0x'' then 16 else 10) of
            Some n \<Rightarrow> f (PInt n)
          | None \<Rightarrow> invalid (CannotParseInteger (lower s)))) \<and>
      f PNone = invalid MustBeString \<and>
      (\<forall>xs. f (PList xs) = invalid MustBeString) \<and>
      (\<forall>d. f (PDict d) = invalid MustBeString) \<and>
      (\<forall>v. f (PCallable v) = invalid MustBeString))"


text \<open>
  An instance of the library record for the examples. Of the constraints it knows
  \<^verbatim>\<open>vol.Range(min=None, max=None)\<close> with bounds that are whole numbers or absent, given by
  position or by the keywords \<^verbatim>\<open>min\<close> and \<^verbatim>\<open>max\<close>, as voluptuous takes them; every
  other call is refused. It converts numbers to floats without rounding.
\<close>

fun as_bound :: "pyval option \<Rightarrow> int option option" where
  "as_bound None = Some None"
| "as_bound (Some PNone) = Some None"
| "as_bound (Some (PInt n)) = Some (Some n)"
| "as_bound v = None"

definition range_of :: "pyval option \<Rightarrow> pyval option \<Rightarrow> validator result" where
  "range_of mn mx =
     (case (as_bound mn, as_bound mx) of
        (Some lo, Some hi) \<Rightarrow> Inr (vol_Range lo hi True True)
      | _ \<Rightarrow> Inl TypeError)"

definition example_call :: "string \<Rightarrow> pyval list \<Rightarrow> (string \<times> pyval) list \<Rightarrow> validator result" where
  "example_call cv posargs kwargs =
     (if cv \<noteq> ''Range'' \<or> \<not> distinct (map fst kwargs) then Inl TypeError
      else
        (case posargs of
           [] \<Rightarrow>
             if set (map fst kwargs) \<subseteq> {''min'', ''max''}
             then range_of (map_of kwargs ''min'') (map_of kwargs ''max'')
             else Inl TypeError
         | [a] \<Rightarrow>
             if set (map fst kwargs) \<subseteq> {''max''}
             then range_of (Some a) (map_of kwargs ''max'')
             else Inl TypeError
         | [a, b] \<Rightarrow> if kwargs = [] then range_of (Some a) (Some b) else Inl TypeError
         | _ \<Rightarrow> Inl TypeError))"

definition example_lib :: pylib where
  "example_lib =
     \<lparr>lib_str = (\<lambda>v. ''<object>''),
      lib_float = (\<lambda>v. case num_value v of
                           Some r \<Rightarrow> Inr (PFloat r)
                         | None \<Rightarrow> invalid NotAValidValue),
      lib_call = example_call\<rparr>"

text \<open>
  The vocabulary of the alternating-sign property: a number is a value that compares
  with 0, and position \<open>i\<close> alternates when its sign differs from the sign of the
  position before it (zero is not negative).
\<close>

definition is_number :: "pyval \<Rightarrow> bool" where
  "is_number v = (is_negative v \<noteq> None)"

definition alternates :: "pyval list \<Rightarrow> nat \<Rightarrow> bool" where
  "alternates xs i = (is_negative (xs ! i) \<noteq> is_negative (xs ! (i - 1)))"

section \<open>Vocabulary of the command-time properties\<close>

text \<open>
  \<open>reads s entries\<close> is a schema whose validators are procedures on a state, read at
  the state \<open>s\<close>: each validator gives the result that the procedure has there.
\<close>

definition reads :: "'s \<Rightarrow> (marker \<times> (pyval \<Rightarrow> 's \<Rightarrow> pyval result \<times> 's)) list \<Rightarrow> schema_entries" where
  "reads s entries = map (\<lambda>(m, f). (m, \<lambda>v. fst (f v s))) entries"

text \<open>
  A function object of Python is equal to itself and to nothing else, and every call of
  \<^verbatim>\<open>vol.Boolean(v)\<close> makes a new one. The model writes \<open>PCallable v\<close> for a function
  object made from \<open>v\<close> and does not tell two of them apart, so the equality of HOL on
  values that hold one is not the \<^verbatim>\<open>==\<close> of Python. \<open>identical_commands a b\<close> is
  \<^verbatim>\<open>a == b\<close> for two commands that two different calls returned: the values agree and
  there is no function object in them.
\<close>

fun has_function :: "pyval \<Rightarrow> bool" where
  "has_function (PCallable v) = True"
| "has_function (PList xs) = (\<exists>x \<in> set xs. has_function x)"
| "has_function (PDict d) = (\<exists>x \<in> snd ` set d. has_function x)"
| "has_function v = False"

definition identical_commands :: "(string \<times> pyval) list \<Rightarrow> (string \<times> pyval) list \<Rightarrow> bool" where
  "identical_commands a b = (a = b \<and> \<not> has_function (PDict a))"

section \<open>Example catalogs\<close>

text \<open>
  The catalog of the end-to-end example: a protocol \<^verbatim>\<open>beep\<close> with the required argument
  \<^verbatim>\<open>freq\<close> and the optional argument \<^verbatim>\<open>duration\<close>, default 100, both \<^verbatim>\<open>uint16_t\<close>;
  and a catalog whose protocol name has a capital letter. Neither has a parameter
  mapping; \<open>no_mappings\<close> is the store for them. \<open>beep_cache\<close> is the registry that
  \<^verbatim>\<open>initialize()\<close> builds from the first one.
\<close>

definition no_mappings :: store where
  "no_mappings = (\<lambda>a. [])"

definition beep_catalog :: catalog where
  "beep_catalog =
     [(''beep'',
       \<lparr>proto_desc = PStr ''Beeper'', proto_type = PStr ''RF'', proto_link = None,
        proto_note = None,
        proto_args =
          [\<lparr>arg_name = ''freq'', arg_type = ''uint16_t'', arg_desc = PStr ''Frequency'',
            arg_default = None, arg_example = None, arg_schema = None\<rparr>,
           \<lparr>arg_name = ''duration'', arg_type = ''uint16_t'', arg_desc = PStr ''Duration'',
            arg_default = Some (PInt 100), arg_example = None, arg_schema = None\<rparr>]\<rparr>)]"

definition capital_catalog :: catalog where
  "capital_catalog =
     [(''Beep'',
       \<lparr>proto_desc = PStr ''Beeper'', proto_type = PStr ''RF'', proto_link = None,
        proto_note = None,
        proto_args =
          [\<lparr>arg_name = ''freq'', arg_type = ''uint16_t'', arg_desc = PStr ''Frequency'',
            arg_default = None, arg_example = None, arg_schema = None\<rparr>]\<rparr>)]"

definition empty_cache :: proto_cache where
  "empty_cache =
     \<lparr>cache_def = None, cache_schema = None, cache_valid = None, cache_store = no_mappings\<rparr>"

definition beep_cache :: proto_cache where
  "beep_cache =
     (case initialize example_lib no_mappings beep_catalog of
        Inr cache \<Rightarrow> cache | Inl e \<Rightarrow> empty_cache)"

text \<open>
  A catalog with a constrained argument that has a default: the protocol \<^verbatim>\<open>dim\<close> with
  the required argument \<^verbatim>\<open>channel\<close> and the optional argument \<^verbatim>\<open>level\<close>, both
  \<^verbatim>\<open>uint8_t\<close>; the level is constrained by \<^verbatim>\<open>Range: {args: [0, 100]}\<close> and its default
  is declared as the string \<^verbatim>\<open>"0x32"\<close>. The parameter mapping is at the address 0.
  \<open>over_catalog\<close> is the same catalog with the default \<^verbatim>\<open>"0x65"\<close>, which is 101.
\<close>

definition range_store :: store where
  "range_store = no_mappings(0 := [(''args'', PList [PInt 0, PInt 100])])"

definition channel_arg :: arg_def where
  "channel_arg =
     \<lparr>arg_name = ''channel'', arg_type = ''uint8_t'', arg_desc = PStr ''Channel'',
      arg_default = None, arg_example = None, arg_schema = None\<rparr>"

definition level_arg :: arg_def where
  "level_arg =
     \<lparr>arg_name = ''level'', arg_type = ''uint8_t'', arg_desc = PStr ''Level'',
      arg_default = Some (PStr ''0x32''), arg_example = None,
      arg_schema = Some [(''Range'', DictParams 0)]\<rparr>"

definition dimmer_catalog :: catalog where
  "dimmer_catalog =
     [(''dim'',
       \<lparr>proto_desc = PStr ''Dimmer'', proto_type = PStr ''IR'', proto_link = None,
        proto_note = None, proto_args = [channel_arg, level_arg]\<rparr>)]"

definition over_catalog :: catalog where
  "over_catalog =
     [(''dim'',
       \<lparr>proto_desc = PStr ''Dimmer'', proto_type = PStr ''IR'', proto_link = None,
        proto_note = None,
        proto_args = [channel_arg, level_arg\<lparr>arg_default := Some (PStr ''0x65'')\<rparr>]\<rparr>)]"

text \<open>
  A catalog in which two arguments use one parameter mapping, as a YAML file gives it
  with an anchor and an alias:
  \<^verbatim>\<open>
  fade:
    desc: Fader
    type: IR
    args:
      - {name: start, type: uint8_t, desc: Start, schema: {Range: &r {args: [0, 100]}}}
      - {name: stop, type: uint8_t, desc: Stop, schema: {Range: *r}}
  \<close>
  Both constraints hold the address 0. In \<open>fade_catalog_apart\<close> the file writes the
  mapping out twice, so the second constraint has a mapping of its own, at the address 1.
\<close>

definition start_arg :: arg_def where
  "start_arg =
     \<lparr>arg_name = ''start'', arg_type = ''uint8_t'', arg_desc = PStr ''Start'',
      arg_default = None, arg_example = None,
      arg_schema = Some [(''Range'', DictParams 0)]\<rparr>"

definition stop_arg :: "addr \<Rightarrow> arg_def" where
  "stop_arg r =
     \<lparr>arg_name = ''stop'', arg_type = ''uint8_t'', arg_desc = PStr ''Stop'',
      arg_default = None, arg_example = None,
      arg_schema = Some [(''Range'', DictParams r)]\<rparr>"

definition fade_catalog :: catalog where
  "fade_catalog =
     [(''fade'',
       \<lparr>proto_desc = PStr ''Fader'', proto_type = PStr ''IR'', proto_link = None,
        proto_note = None, proto_args = [start_arg, stop_arg 0]\<rparr>)]"

definition fade_catalog_apart :: catalog where
  "fade_catalog_apart =
     [(''fade'',
       \<lparr>proto_desc = PStr ''Fader'', proto_type = PStr ''IR'', proto_link = None,
        proto_note = None, proto_args = [start_arg, stop_arg 1]\<rparr>)]"

definition range_store_apart :: store where
  "range_store_apart = range_store(1 := [(''args'', PList [PInt 0, PInt 100])])"

text \<open>
  A catalog with an argument of the type \<^verbatim>\<open>bool\<close>: the protocol \<^verbatim>\<open>say\<close> with the
  required argument \<^verbatim>\<open>text\<close>, a string, and the optional argument \<^verbatim>\<open>loud\<close>, a
  \<^verbatim>\<open>bool\<close> with the default \<^verbatim>\<open>False\<close>.
\<close>

definition say_catalog :: catalog where
  "say_catalog =
     [(''say'',
       \<lparr>proto_desc = PStr ''Speaker'', proto_type = PStr ''RF'', proto_link = None,
        proto_note = None,
        proto_args =
          [\<lparr>arg_name = ''text'', arg_type = ''string'', arg_desc = PStr ''Text'',
            arg_default = None, arg_example = None, arg_schema = None\<rparr>,
           \<lparr>arg_name = ''loud'', arg_type = ''bool'', arg_desc = PStr ''Loud'',
            arg_default = Some (PBool False), arg_example = None, arg_schema = None\<rparr>]\<rparr>)]"

section \<open>The alternating-sign constraint\<close>

lemma alternating_loop_ok:
  "list_all is_number ys \<Longrightarrow> 0 < k \<Longrightarrow>
   (alternating_loop k (Some b) ys = Inr ()) =
   (\<forall>i. i < length ys \<longrightarrow> is_negative (ys ! i) \<noteq> (if i = 0 then Some b else is_negative (ys ! (i - 1))))"
proof (induction ys arbitrary: k b)
  case Nil
  then show ?case by simp
next
  case (Cons y ys)
  from Cons.prems obtain c where c: "is_negative y = Some c" by (auto simp: is_number_def)
  from Cons.prems have ys: "list_all is_number ys" by simp
  show ?case
  proof (cases "c = b")
    case True
    with c Cons.prems show ?thesis by (auto simp: invalid_at_def)
  next
    case False
    have "(alternating_loop k (Some b) (y # ys) = Inr ()) = (alternating_loop (Suc k) (Some c) ys = Inr ())"
      using c False by simp
    also have "\<dots> = (\<forall>i. i < length ys \<longrightarrow> is_negative (ys ! i) \<noteq> (if i = 0 then Some c else is_negative (ys ! (i - 1))))"
      using Cons.IH [OF ys, of "Suc k" c] by simp
    also have "\<dots> = (\<forall>i. i < length (y # ys) \<longrightarrow> is_negative ((y # ys) ! i) \<noteq> (if i = 0 then Some b else is_negative ((y # ys) ! (i - 1))))"
      (is "?L = ?R")
    proof
      assume L: ?L
      show ?R
      proof (intro allI impI)
        fix i assume i: "i < length (y # ys)"
        show "is_negative ((y # ys) ! i) \<noteq> (if i = 0 then Some b else is_negative ((y # ys) ! (i - 1)))"
        proof (cases i)
          case 0 with c False show ?thesis by simp
        next
          case (Suc j)
          with i L[rule_format, of j] c show ?thesis by (cases j) auto
        qed
      qed
    next
      assume R: ?R
      show ?L
      proof (intro allI impI)
        fix i assume i: "i < length ys"
        from R[rule_format, of "Suc i"] i c show "is_negative (ys ! i) \<noteq> (if i = 0 then Some c else is_negative (ys ! (i - 1)))"
          by (cases i) auto
      qed
    qed
    finally show ?thesis .
  qed
qed

lemma alternating_loop_index:
  "alternating_loop k l ys = invalid_at (AlternatingSigns m n) p \<Longrightarrow> k \<le> m"
proof (induction ys arbitrary: k l)
  case Nil
  then show ?case by (simp add: invalid_at_def)
next
  case (Cons y ys)
  show ?case
  proof (cases "is_negative y")
    case None
    with Cons.prems show ?thesis by (simp add: invalid_at_def)
  next
    case (Some c)
    show ?thesis
    proof (cases "k \<noteq> 0 \<and> l = Some c")
      case True
      then have "alternating_loop k l (y # ys) = invalid_at (AlternatingSigns k (k + 1)) [PInt (int k)]"
        using Some by simp
      with Cons.prems show ?thesis by (simp add: invalid_at_def)
    next
      case False
      then have "alternating_loop k l (y # ys) = alternating_loop (Suc k) (Some c) ys"
        using Some by auto
      with Cons.prems have "alternating_loop (Suc k) (Some c) ys = invalid_at (AlternatingSigns m n) p"
        by simp
      from Cons.IH [OF this] show ?thesis by simp
    qed
  qed
qed

lemma alternating_loop_err:
  "list_all is_number ys \<Longrightarrow> 0 < k \<Longrightarrow>
   (alternating_loop k (Some b) ys = invalid_at (AlternatingSigns (k + j) (k + j + 1)) [PInt (int (k + j))]) =
   (j < length ys \<and> is_negative (ys ! j) = (if j = 0 then Some b else is_negative (ys ! (j - 1))) \<and>
    (\<forall>i<j. is_negative (ys ! i) \<noteq> (if i = 0 then Some b else is_negative (ys ! (i - 1)))))"
proof (induction ys arbitrary: k b j)
  case Nil
  then show ?case by (simp add: invalid_at_def)
next
  case (Cons y ys)
  from Cons.prems obtain c where c: "is_negative y = Some c" by (auto simp: is_number_def)
  from Cons.prems have ys: "list_all is_number ys" by simp
  show ?case
  proof (cases "c = b")
    case True
    with c Cons.prems show ?thesis by (cases j) (auto simp: invalid_at_def)
  next
    case False
    have step: "alternating_loop k (Some b) (y # ys) = alternating_loop (Suc k) (Some c) ys"
      using c False by simp
    show ?thesis
    proof (cases j)
      case 0
      have "alternating_loop (Suc k) (Some c) ys \<noteq> invalid_at (AlternatingSigns k (k + 1)) [PInt (int k)]"
        using alternating_loop_index [of "Suc k" "Some c" ys k "k + 1" "[PInt (int k)]"] by auto
      with 0 step c False show ?thesis by simp
    next
      case (Suc j')
      have "(alternating_loop (Suc k) (Some c) ys = invalid_at (AlternatingSigns (Suc k + j') (Suc k + j' + 1)) [PInt (int (Suc k + j'))]) =
        (j' < length ys \<and> is_negative (ys ! j') = (if j' = 0 then Some c else is_negative (ys ! (j' - 1))) \<and>
         (\<forall>i<j'. is_negative (ys ! i) \<noteq> (if i = 0 then Some c else is_negative (ys ! (i - 1)))))"
        by (rule Cons.IH [OF ys]) simp
      moreover have "(\<forall>i<j'. is_negative (ys ! i) \<noteq> (if i = 0 then Some c else is_negative (ys ! (i - 1)))) =
         (\<forall>i<Suc j'. is_negative ((y # ys) ! i) \<noteq> (if i = 0 then Some b else is_negative ((y # ys) ! (i - 1))))"
        (is "?L = ?R")
      proof
        assume L: ?L
        show ?R
        proof (intro allI impI)
          fix i assume i: "i < Suc j'"
          show "is_negative ((y # ys) ! i) \<noteq> (if i = 0 then Some b else is_negative ((y # ys) ! (i - 1)))"
          proof (cases i)
            case 0 with c False show ?thesis by simp
          next
            case (Suc m)
            with i L[rule_format, of m] c show ?thesis by (cases m) auto
          qed
        qed
      next
        assume R: ?R
        show ?L
        proof (intro allI impI)
          fix i assume i: "i < j'"
          from R[rule_format, of "Suc i"] i c show "is_negative (ys ! i) \<noteq> (if i = 0 then Some c else is_negative (ys ! (i - 1)))"
            by (cases i) auto
        qed
      qed
      moreover have "is_negative ((y # ys) ! Suc j') = (if Suc j' = 0 then Some b else is_negative ((y # ys) ! (Suc j' - 1))) =
        (is_negative (ys ! j') = (if j' = 0 then Some c else is_negative (ys ! (j' - 1))))"
        using c by (cases j') auto
      ultimately show ?thesis using Suc step by simp
    qed
  qed
qed


lemma alternating_signs_accepts:
  assumes "list_all is_number xs"
  shows "(alternating_signs (PList xs) = Inr (PList xs)) =
    (\<forall>i. 0 < i \<and> i < length xs \<longrightarrow> alternates xs i)"
proof (cases xs)
  case Nil
  then show ?thesis by simp
next
  case (Cons x ys)
  from assms Cons obtain c where c: "is_negative x = Some c" by (auto simp: is_number_def)
  from assms Cons have ys: "list_all is_number ys" by simp
  have "(alternating_signs (PList xs) = Inr (PList xs)) = (alternating_loop 1 (Some c) ys = Inr ())"
    using Cons c by (auto split: sum.splits)
  also have "\<dots> = (\<forall>i. i < length ys \<longrightarrow> is_negative (ys ! i) \<noteq> (if i = 0 then Some c else is_negative (ys ! (i - 1))))"
    by (rule alternating_loop_ok [OF ys]) simp
  also have "\<dots> = (\<forall>i. 0 < i \<and> i < length xs \<longrightarrow> alternates xs i)" (is "?L = ?R")
  proof
    assume L: ?L
    show ?R
    proof (intro allI impI)
      fix i assume i: "0 < i \<and> i < length xs"
      then obtain m where m: "i = Suc m" by (cases i) auto
      with i L[rule_format, of m] c Cons show "alternates xs i"
        by (cases m) (auto simp: alternates_def)
    qed
  next
    assume R: ?R
    show ?L
    proof (intro allI impI)
      fix i assume i: "i < length ys"
      from R[rule_format, of "Suc i"] i c Cons
      show "is_negative (ys ! i) \<noteq> (if i = 0 then Some c else is_negative (ys ! (i - 1)))"
        by (cases i) (auto simp: alternates_def)
    qed
  qed
  finally show ?thesis .
qed

lemma alternating_signs_rejects:
  assumes "list_all is_number xs" and i: "0 < i"
  shows "(alternating_signs (PList xs) = invalid_at (AlternatingSigns i (i + 1)) [PInt (int i)]) =
    (i < length xs \<and> \<not> alternates xs i \<and> (\<forall>j. 0 < j \<and> j < i \<longrightarrow> alternates xs j))"
proof -
  from i obtain j where j: "i = Suc j" by (cases i) auto
  show "(alternating_signs (PList xs) = invalid_at (AlternatingSigns i (i + 1)) [PInt (int i)]) =
       (i < length xs \<and> \<not> alternates xs i \<and> (\<forall>j. 0 < j \<and> j < i \<longrightarrow> alternates xs j))"
  proof (cases xs)
    case Nil
    then show ?thesis by (simp add: invalid_at_def)
  next
    case (Cons x ys)
    from assms Cons obtain c where c: "is_negative x = Some c" by (auto simp: is_number_def)
    from assms Cons have ys: "list_all is_number ys" by simp
    have "(alternating_signs (PList xs) = invalid_at (AlternatingSigns i (i + 1)) [PInt (int i)])
       = (alternating_loop 1 (Some c) ys = invalid_at (AlternatingSigns (1 + j) (1 + j + 1)) [PInt (int (1 + j))])"
      using Cons c j by (auto simp: invalid_at_def split: sum.splits)
    also have "\<dots> = (j < length ys \<and> is_negative (ys ! j) = (if j = 0 then Some c else is_negative (ys ! (j - 1))) \<and>
      (\<forall>i<j. is_negative (ys ! i) \<noteq> (if i = 0 then Some c else is_negative (ys ! (i - 1)))))"
      by (rule alternating_loop_err [OF ys]) simp
    also have "\<dots> = (i < length xs \<and> \<not> alternates xs i \<and> (\<forall>j. 0 < j \<and> j < i \<longrightarrow> alternates xs j))"
    proof -
      have a: "(is_negative (ys ! j) = (if j = 0 then Some c else is_negative (ys ! (j - 1)))) = (\<not> alternates xs i)"
        using c Cons j by (cases j) (auto simp: alternates_def)
      have b: "(\<forall>i<j. is_negative (ys ! i) \<noteq> (if i = 0 then Some c else is_negative (ys ! (i - 1)))) = (\<forall>m. 0 < m \<and> m < i \<longrightarrow> alternates xs m)"
        (is "?L = ?R")
      proof
        assume L: ?L
        show ?R
        proof (intro allI impI)
          fix m assume m: "0 < m \<and> m < i"
          then obtain n where n: "m = Suc n" by (cases m) auto
          with m j L[rule_format, of n] c Cons show "alternates xs m"
            by (cases n) (auto simp: alternates_def)
        qed
      next
        assume R: ?R
        show ?L
        proof (intro allI impI)
          fix n assume n: "n < j"
          from R[rule_format, of "Suc n"] n j c Cons
          show "is_negative (ys ! n) \<noteq> (if n = 0 then Some c else is_negative (ys ! (n - 1)))"
            by (cases n) (auto simp: alternates_def)
        qed
      qed
      have l: "(j < length ys) = (i < length xs)" using Cons j by simp
      show ?thesis by (simp only: a b l)
    qed
    finally show ?thesis .
  qed
qed

text \<open>
  C8. On a list of numbers \<open>alternating_signs\<close> returns the list unchanged if and only
  if at every index \<open>i > 0\<close> the sign of element \<open>i\<close> differs from the sign of element
  \<open>i - 1\<close>, zero counting as not negative. Otherwise it raises \<^verbatim>\<open>vol.Invalid\<close> at the
  first index \<open>i\<close> whose sign repeats the sign before it: the path of the error is
  \<open>[i]\<close> and its message names the pair \<open>i\<close> and \<open>i + 1\<close>, the two offending
  elements counted from one. \<open>[1, -2, 3]\<close> passes and \<open>[1, 2, -3]\<close> fails at index 1.
\<close>

theorem alternating_signs_spec:
  "(list_all is_number xs \<longrightarrow>
      ((alternating_signs (PList xs) = Inr (PList xs)) =
         (\<forall>i. 0 < i \<and> i < length xs \<longrightarrow> alternates xs i)) \<and>
      (\<forall>i. 0 < i \<longrightarrow>
         (alternating_signs (PList xs) =
            invalid_at (AlternatingSigns i (i + 1)) [PInt (int i)]) =
         (i < length xs \<and> \<not> alternates xs i \<and>
          (\<forall>j. 0 < j \<and> j < i \<longrightarrow> alternates xs j)))) \<and>
   alternating_signs (PList [PInt 1, PInt (- 2), PInt 3]) =
     Inr (PList [PInt 1, PInt (- 2), PInt 3]) \<and>
   alternating_signs (PList [PInt 1, PInt 2, PInt (- 3)]) =
     invalid_at (AlternatingSigns 1 2) [PInt 1] \<and>
   alternating_signs (PList [PInt 0, PInt 5]) =
     invalid_at (AlternatingSigns 1 2) [PInt 1] \<and>
   alternating_signs (PList [PInt 0, PInt (- 5)]) = Inr (PList [PInt 0, PInt (- 5)])"
proof -
  have general: "list_all is_number xs \<longrightarrow>
      ((alternating_signs (PList xs) = Inr (PList xs)) =
         (\<forall>i. 0 < i \<and> i < length xs \<longrightarrow> alternates xs i)) \<and>
      (\<forall>i. 0 < i \<longrightarrow>
         (alternating_signs (PList xs) =
            invalid_at (AlternatingSigns i (i + 1)) [PInt (int i)]) =
         (i < length xs \<and> \<not> alternates xs i \<and>
          (\<forall>j. 0 < j \<and> j < i \<longrightarrow> alternates xs j)))"
    using alternating_signs_accepts [of xs] alternating_signs_rejects [of xs] by blast
  have e1: "alternating_signs (PList [PInt 1, PInt (- 2), PInt 3]) =
     Inr (PList [PInt 1, PInt (- 2), PInt 3])"
    by (simp add: invalid_at_def)
  have e2: "alternating_signs (PList [PInt 1, PInt 2, PInt (- 3)]) =
     invalid_at (AlternatingSigns 1 2) [PInt 1]"
    by (simp add: invalid_at_def)
  have e3: "alternating_signs (PList [PInt 0, PInt 5]) =
     invalid_at (AlternatingSigns 1 2) [PInt 1]"
    by (simp add: invalid_at_def)
  have e4: "alternating_signs (PList [PInt 0, PInt (- 5)]) = Inr (PList [PInt 0, PInt (- 5)])"
    by (simp add: invalid_at_def)
  from general e1 e2 e3 e4 show ?thesis by blast
qed

theorem alternating_signs_spec_witness:
  "list_all is_number [PInt 4, PInt (- 4), PInt (- 1)] \<and>
   alternating_signs (PList [PInt 4, PInt (- 4), PInt (- 1)]) \<noteq>
     Inr (PList [PInt 4, PInt (- 4), PInt (- 1)]) \<and>
   alternating_signs (PList [PInt 4, PInt (- 4), PInt (- 1)]) =
     invalid_at (AlternatingSigns 2 3) [PInt 2]"
proof -
  have n: "list_all is_number [PInt 4, PInt (- 4), PInt (- 1)]"
    by (simp add: is_number_def)
  have a: "\<not> alternates [PInt 4, PInt (- 4), PInt (- 1)] 2"
    by (simp add: alternates_def)
  have b: "\<forall>j. 0 < j \<and> j < (2::nat) \<longrightarrow> alternates [PInt 4, PInt (- 4), PInt (- 1)] j"
  proof (intro allI impI)
    fix j :: nat assume "0 < j \<and> j < 2"
    then have "j = 1" by simp
    then show "alternates [PInt 4, PInt (- 4), PInt (- 1)] j" by (simp add: alternates_def)
  qed
  from alternating_signs_spec [of "[PInt 4, PInt (- 4), PInt (- 1)]"] n
  have acc: "(alternating_signs (PList [PInt 4, PInt (- 4), PInt (- 1)]) =
        Inr (PList [PInt 4, PInt (- 4), PInt (- 1)])) =
      (\<forall>i. 0 < i \<and> i < length [PInt 4, PInt (- 4), PInt (- 1)] \<longrightarrow>
         alternates [PInt 4, PInt (- 4), PInt (- 1)] i)"
    and rej: "\<forall>i. 0 < i \<longrightarrow>
      (alternating_signs (PList [PInt 4, PInt (- 4), PInt (- 1)]) =
         invalid_at (AlternatingSigns i (i + 1)) [PInt (int i)]) =
      (i < length [PInt 4, PInt (- 4), PInt (- 1)] \<and>
       \<not> alternates [PInt 4, PInt (- 4), PInt (- 1)] i \<and>
       (\<forall>j. 0 < j \<and> j < i \<longrightarrow> alternates [PInt 4, PInt (- 4), PInt (- 1)] j))"
    by blast+
  from rej [rule_format, of 2] a b
  have r: "alternating_signs (PList [PInt 4, PInt (- 4), PInt (- 1)]) =
     invalid_at (AlternatingSigns 2 3) [PInt 2]"
    by simp
  then have "alternating_signs (PList [PInt 4, PInt (- 4), PInt (- 1)]) \<noteq>
     Inr (PList [PInt 4, PInt (- 4), PInt (- 1)])"
    by (simp add: invalid_at_def)
  with n r show ?thesis by blast
qed

section \<open>Properties of the tokenizer\<close>

lemma quoted_body_closing:
  "quoted_body K q prev cs = Some n \<Longrightarrow> cs ! n = q"
  by (induction K q prev cs arbitrary: n rule: quoted_body.induct)
     (auto split: if_splits option.splits)

lemma takeWhile_append_stop:
  "\<not> P d \<Longrightarrow> takeWhile P (xs @ [d]) = takeWhile P xs"
  by (induction xs) auto

lemma quoted_body_append_delim:
  "d \<noteq> q \<Longrightarrow> quoted_body (\<lambda>r. True) q prev (cs @ [d]) = quoted_body (\<lambda>r. True) q prev cs"
proof (induction cs arbitrary: prev rule: length_induct)
  case (1 xs)
  show ?case
  proof (cases xs)
    case Nil
    with 1(2) show ?thesis by simp
  next
    case (Cons c ys)
    note c = this
    show ?thesis
    proof (cases ys)
      case Nil
      with c 1(2) show ?thesis by simp
    next
      case (Cons c' zs)
      have a: "\<And>p. quoted_body (\<lambda>r. True) q p (c' # zs @ [d]) = quoted_body (\<lambda>r. True) q p (c' # zs)"
        using 1(1) [rule_format, of "c' # zs"] 1(2) c Cons by simp
      have b: "\<And>p. quoted_body (\<lambda>r. True) q p (zs @ [d]) = quoted_body (\<lambda>r. True) q p zs"
        using 1(1) [rule_format, of zs] 1(2) c Cons by simp
      show ?thesis
        by (simp only: c Cons append_Cons quoted_body.simps(3) a b)
    qed
  qed
qed

lemma quoted_run_append_delim:
  assumes "\<not> isspace d" and "\<not> is_quote d"
  shows "quoted_run (t @ [d]) = quoted_run t"
proof -
  let ?ws = "length (takeWhile isspace t)"
  have tw: "takeWhile isspace (t @ [d]) = takeWhile isspace t"
    using assms(1) by (rule takeWhile_append_stop)
  have dr: "drop ?ws (t @ [d]) = drop ?ws t @ [d]"
    by (simp add: length_takeWhile_le)
  show ?thesis
  proof (cases "drop ?ws t")
    case Nil
    with assms(2) tw dr show ?thesis by (simp add: quoted_run_def Let_def)
  next
    case (Cons q body)
    show ?thesis
    proof (cases "is_quote q")
      case False
      with Cons tw dr show ?thesis by (simp add: quoted_run_def Let_def)
    next
      case True
      with assms(2) have dq: "d \<noteq> q" by auto
      have qb: "quoted_body (\<lambda>r. True) q q (body @ [d]) = quoted_body (\<lambda>r. True) q q body"
        using dq by (rule quoted_body_append_delim)
      show ?thesis
      proof (cases "quoted_body (\<lambda>r. True) q q body")
        case None
        with Cons True tw dr qb show ?thesis by (simp add: quoted_run_def Let_def)
      next
        case (Some n)
        then have n: "n < length body" by (rule quoted_body_le)
        then have "drop (Suc n) (body @ [d]) = drop (Suc n) body @ [d]" by simp
        then have "takeWhile isspace (drop (Suc n) (body @ [d])) = takeWhile isspace (drop (Suc n) body)"
          using assms(1) by (simp add: takeWhile_append_stop)
        with Some Cons True tw dr qb show ?thesis by (simp add: quoted_run_def Let_def)
      qed
    qed
  qed
qed

lemma re_first_end_le: "re_first_end d t \<le> length t"
proof (induction d t rule: re_first_end.induct)
  case (1 d t)
  show ?case
  proof (cases "quoted_run t")
    case (Some n)
    have e: "re_first_end d t = n + re_first_end d (drop n t)"
      using Some by (subst re_first_end.simps) simp
    from quoted_run_bounds [OF Some] have "n \<le> length t" by simp
    moreover from 1(2) [OF Some] have "re_first_end d (drop n t) \<le> length t - n" by simp
    ultimately show ?thesis using e by arith
  next
    case None
    show ?thesis
    proof (cases t)
      case Nil
      with None show ?thesis by (subst re_first_end.simps) simp
    next
      case (Cons c cs)
      with None 1(1) [OF None Cons] show ?thesis
        by (subst re_first_end.simps) auto
    qed
  qed
qed

lemma re_first_end_stops:
  "re_first_end d t < length t \<Longrightarrow> t ! (re_first_end d t) = d"
proof (induction d t rule: re_first_end.induct)
  case (1 d t)
  show ?case
  proof (cases "quoted_run t")
    case (Some n)
    have e: "re_first_end d t = n + re_first_end d (drop n t)"
      using Some by (subst re_first_end.simps) simp
    from quoted_run_bounds [OF Some] have n: "n \<le> length t" by simp
    from 1(3) e n have "re_first_end d (drop n t) < length (drop n t)" by simp
    from 1(2) [OF Some this] e n show ?thesis by (simp add: add.commute)
  next
    case None
    show ?thesis
    proof (cases t)
      case Nil
      with 1(3) show ?thesis by simp
    next
      case (Cons c cs)
      show ?thesis
      proof (cases "c = d")
        case True
        with None Cons show ?thesis by (subst re_first_end.simps) simp
      next
        case False
        have e: "re_first_end d t = Suc (re_first_end d cs)"
          using None Cons False by (subst re_first_end.simps) simp
        with 1(3) Cons have "re_first_end d cs < length cs" by simp
        from 1(1) [OF None Cons False this] e Cons show ?thesis by simp
      qed
    qed
  qed
qed

lemma re_first_end_append_delim:
  "\<not> isspace d \<Longrightarrow> \<not> is_quote d \<Longrightarrow> re_first_end d (t @ [d]) = re_first_end d t"
proof (induction d t rule: re_first_end.induct)
  case (1 d t)
  have qr: "quoted_run (t @ [d]) = quoted_run t"
    using 1(3,4) by (rule quoted_run_append_delim)
  show ?case
  proof (cases "quoted_run t")
    case (Some n)
    from quoted_run_bounds [OF Some] have n: "n \<le> length t" by simp
    have "re_first_end d (t @ [d]) = n + re_first_end d (drop n (t @ [d]))"
      using Some qr by (subst re_first_end.simps) simp
    also have "drop n (t @ [d]) = drop n t @ [d]" using n by simp
    also have "re_first_end d (drop n t @ [d]) = re_first_end d (drop n t)"
      using 1(2) [OF Some 1(3,4)] .
    also have "n + re_first_end d (drop n t) = re_first_end d t"
      using Some by (subst (2) re_first_end.simps) simp
    finally show ?thesis .
  next
    case None
    show ?thesis
    proof (cases t)
      case Nil
      have "quoted_run [d] = None" using qr None Nil by simp
      then have "re_first_end d [d] = 0" by (subst re_first_end.simps) simp
      moreover have "re_first_end d [] = 0" using None Nil by (subst re_first_end.simps) simp
      ultimately show ?thesis using Nil by simp
    next
      case (Cons c cs)
      show ?thesis
      proof (cases "c = d")
        case True
        have "re_first_end d (t @ [d]) = 0"
          using None qr Cons True by (subst re_first_end.simps) simp
        moreover have "re_first_end d t = 0"
          using None Cons True by (subst re_first_end.simps) simp
        ultimately show ?thesis by simp
      next
        case False
        have "re_first_end d (t @ [d]) = Suc (re_first_end d (cs @ [d]))"
          using None qr Cons False by (subst re_first_end.simps) simp
        also have "re_first_end d (cs @ [d]) = re_first_end d cs"
          using 1(1) [OF None Cons False 1(3,4)] .
        also have "Suc (re_first_end d cs) = re_first_end d t"
          using None Cons False by (subst (2) re_first_end.simps) simp
        finally show ?thesis .
      qed
    qed
  qed
qed

lemma quoted_run_whole:
  assumes "quoted_run t = Some (length t)"
  shows "t \<noteq> [] \<and> (is_quote (last t) \<or> isspace (last t))"
proof -
  let ?ws = "length (takeWhile isspace t)"
  from assms obtain q body m where
    d: "drop ?ws t = q # body" and q: "is_quote q" and
    b: "quoted_body (\<lambda>r. True) q q body = Some m" and
    n: "length t = ?ws + 1 + m + 1 + length (takeWhile isspace (drop (Suc m) body))"
    by (auto simp: quoted_run_def Let_def split: list.splits if_splits option.splits)
  from b have m: "m < length body" by (rule quoted_body_le)
  from b have cl: "body ! m = q" by (rule quoted_body_closing)
  have t: "t = takeWhile isspace t @ q # body"
    using d by (metis append_take_drop_id takeWhile_eq_take)
  then have lt: "length t = ?ws + 1 + length body"
    by (metis One_nat_def add.assoc length_Cons length_append plus_1_eq_Suc add.commute)
  have ne: "t \<noteq> []" using t by auto
  have lb: "last t = last body" using t m
    by (metis last_appendR last_ConsR list.distinct(1) list.size(3) not_less_zero)
  let ?r = "drop (Suc m) body"
  from n lt m have full: "length (takeWhile isspace ?r) = length ?r" by simp
  then have all: "takeWhile isspace ?r = ?r"
    by (metis append_eq_conv_conj takeWhile_dropWhile_id drop_all order_refl append_Nil2 length_0_conv length_drop takeWhile_eq_take)
  show ?thesis
  proof (cases "?r = []")
    case True
    then have "length body = Suc m" using m by simp
    then have "last body = body ! m" using m
      by (metis diff_Suc_1 last_conv_nth list.size(3) nat.distinct(1))
    with cl lb q ne show ?thesis by simp
  next
    case False
    then have "last body = last ?r" using m by simp
    moreover have "last ?r \<in> set ?r" using False by (rule last_in_set)
    then have "last ?r \<in> set (takeWhile isspace ?r)" by (simp only: all)
    then have "isspace (last ?r)" by (rule set_takeWhileD [THEN conjunct2])
    ultimately show ?thesis using lb ne by simp
  qed
qed

lemma re_first_end_whole:
  "\<not> isspace d \<Longrightarrow> \<not> is_quote d \<Longrightarrow> t \<noteq> [] \<Longrightarrow> re_first_end d t = length t \<Longrightarrow> last t \<noteq> d"
proof (induction d t rule: re_first_end.induct)
  case (1 d t)
  show ?case
  proof (cases "quoted_run t")
    case (Some n)
    from quoted_run_bounds [OF Some] have n: "0 < n" "n \<le> length t" by simp_all
    have e: "re_first_end d t = n + re_first_end d (drop n t)"
      using Some by (subst re_first_end.simps) simp
    with 1(6) n have r: "re_first_end d (drop n t) = length (drop n t)" by simp
    show ?thesis
    proof (cases "drop n t = []")
      case True
      with n have "n = length t" by simp
      with Some have "quoted_run t = Some (length t)" by simp
      from quoted_run_whole [OF this] 1(3,4) show ?thesis by auto
    next
      case False
      from 1(2) [OF Some 1(3,4) False r] have "last (drop n t) \<noteq> d" .
      with False show ?thesis by simp
    qed
  next
    case None
    from 1(5) obtain c cs where t: "t = c # cs" by (cases t) auto
    show ?thesis
    proof (cases "c = d")
      case True
      with None t have "re_first_end d t = 0" by (subst re_first_end.simps) simp
      with 1(6) t show ?thesis by simp
    next
      case False
      have e: "re_first_end d t = Suc (re_first_end d cs)"
        using None t False by (subst re_first_end.simps) simp
      with 1(6) t have r: "re_first_end d cs = length cs" by simp
      show ?thesis
      proof (cases "cs = []")
        case True
        with t False show ?thesis by simp
      next
        case False
        from 1(1) [OF None t \<open>c \<noteq> d\<close> 1(3,4) False r] t False show ?thesis by simp
      qed
    qed
  qed
qed

lemma quoted_split_step:
  "t \<noteq> [] \<Longrightarrow> quoted_split t d =
     strip (take (re_first_end d t) t) # quoted_split (drop (Suc (re_first_end d t)) t) d"
  by (subst quoted_split.simps) simp

lemma quoted_split_Nil: "quoted_split [] d = []"
  by (subst quoted_split.simps) simp

lemma quoted_split_trailing_delimiter:
  "\<not> isspace d \<Longrightarrow> \<not> is_quote d \<Longrightarrow> quoted_split (t @ [d]) d =
    (if t = [] \<or> last t = d then quoted_split t d @ [[]] else quoted_split t d)"
proof (induction t d rule: quoted_split.induct)
  case (1 t d)
  let ?e = "re_first_end d t"
  have e': "re_first_end d (t @ [d]) = ?e"
    using 1(2,3) by (rule re_first_end_append_delim)
  have le: "?e \<le> length t" by (rule re_first_end_le)
  have step: "quoted_split (t @ [d]) d =
      strip (take ?e (t @ [d])) # quoted_split (drop (Suc ?e) (t @ [d])) d"
    using quoted_split_step [of "t @ [d]" d] e' by simp
  show ?case
  proof (cases "t = []")
    case True
    then have "?e = 0" using le by simp
    with step True show ?thesis by (simp add: quoted_split_Nil strip_def)
  next
    case False
    note ne = this
    have tstep: "quoted_split t d = strip (take ?e t) # quoted_split (drop (Suc ?e) t) d"
      using ne by (rule quoted_split_step)
    show ?thesis
    proof (cases "?e = length t")
      case True
      from re_first_end_whole [OF 1(2,3) ne True] have "last t \<noteq> d" .
      with step tstep True ne show ?thesis by (simp add: quoted_split_Nil)
    next
      case False
      with le have lt: "?e < length t" by simp
      then have at: "t ! ?e = d" by (rule re_first_end_stops)
      let ?r = "drop (Suc ?e) t"
      have dr: "drop (Suc ?e) (t @ [d]) = ?r @ [d]" using lt by simp
      have tk: "take ?e (t @ [d]) = take ?e t" using lt by simp
      have ih: "quoted_split (?r @ [d]) d =
        (if ?r = [] \<or> last ?r = d then quoted_split ?r d @ [[]] else quoted_split ?r d)"
        using 1(1) [OF ne 1(2,3)] .
      have cond: "(?r = [] \<or> last ?r = d) = (last t = d)"
      proof (cases "?r = []")
        case True
        then have "length t = Suc ?e" using lt by simp
        then have "last t = t ! ?e" using ne by (simp add: last_conv_nth)
        with at True show ?thesis by simp
      next
        case False
        then have "last ?r = last t" by simp
        with False show ?thesis by simp
      qed
      from step tstep dr tk ih cond ne show ?thesis by simp
    qed
  qed
qed

lemma strip_trimmed:
  "strip s = [] \<or> (\<not> isspace (hd (strip s)) \<and> \<not> isspace (last (strip s)))"
proof (cases "strip s = []")
  case True
  then show ?thesis by simp
next
  case False
  let ?u = "dropWhile isspace s"
  let ?v = "dropWhile isspace (rev ?u)"
  have s: "strip s = rev ?v" by (simp add: strip_def)
  with False have v: "?v \<noteq> []" by simp
  then have "\<not> isspace (hd ?v)" by (rule hd_dropWhile)
  with s v have l: "\<not> isspace (last (strip s))" by (simp add: last_rev)
  have u: "?u \<noteq> []"
  proof
    assume "?u = []"
    then have "rev ?u = []" by (simp only: rev.simps)
    then have "?v = []" by (simp only: dropWhile.simps)
    with v show False by (simp only: not_True_eq_False simp_thms)
  qed
  have "rev ?u = takeWhile isspace (rev ?u) @ ?v" by simp
  then have "last (rev ?u) = last ?v" using v by (metis last_appendR)
  then have "last ?v = hd ?u" using u by (simp add: last_rev)
  moreover from u have "\<not> isspace (hd ?u)" by (rule hd_dropWhile)
  ultimately have "\<not> isspace (hd (strip s))" using s v by (simp add: hd_rev)
  with l show ?thesis by simp
qed

lemma quoted_split_trimmed:
  "\<forall>tok \<in> set (quoted_split t d). tok = [] \<or> (\<not> isspace (hd tok) \<and> \<not> isspace (last tok))"
proof (induction t d rule: quoted_split.induct)
  case (1 t d)
  show ?case
  proof (cases "t = []")
    case True
    then show ?thesis by (simp add: quoted_split_Nil)
  next
    case False
    from 1 [OF False] quoted_split_step [OF False, of d] strip_trimmed [of "take (re_first_end d t) t"]
    show ?thesis by auto
  qed
qed

lemma quoted_run_plain:
  assumes "\<forall>c \<in> set t. \<not> is_quote c" and "\<not> is_quote d" and "\<not> isspace d"
  shows "quoted_run (t @ d # r) = None"
proof -
  let ?s = "t @ d # r"
  have dw: "drop (length (takeWhile isspace ?s)) ?s = dropWhile isspace ?s"
    by (simp add: dropWhile_eq_drop)
  have ne: "dropWhile isspace ?s \<noteq> []" using assms(3) by auto
  have "hd (dropWhile isspace ?s) \<in> set t \<union> {d}"
  proof (cases "\<forall>c \<in> set t. isspace c")
    case True
    then have "dropWhile isspace ?s = d # r" using assms(3) by (simp add: dropWhile_append)
    then show ?thesis by simp
  next
    case False
    then have "dropWhile isspace ?s = dropWhile isspace t @ d # r" by (auto simp: dropWhile_append)
    moreover from False have "dropWhile isspace t \<noteq> []" by auto
    ultimately have "hd (dropWhile isspace ?s) = hd (dropWhile isspace t)" by simp
    moreover have "hd (dropWhile isspace t) \<in> set (dropWhile isspace t)"
      using \<open>dropWhile isspace t \<noteq> []\<close> by simp
    then have "hd (dropWhile isspace t) \<in> set t" by (rule set_dropWhileD)
    ultimately show ?thesis by simp
  qed
  with assms have "\<not> is_quote (hd (dropWhile isspace ?s))" by auto
  with ne dw show ?thesis
    by (cases "dropWhile isspace ?s") (auto simp: quoted_run_def Let_def)
qed

lemma re_first_end_plain:
  "\<forall>c \<in> set t. \<not> is_quote c \<and> c \<noteq> d \<Longrightarrow> \<not> is_quote d \<Longrightarrow> \<not> isspace d \<Longrightarrow>
   re_first_end d (t @ d # r) = length t"
proof (induction t)
  case Nil
  have "quoted_run ([] @ d # r) = None" using Nil by (intro quoted_run_plain) auto
  then show ?case by (subst re_first_end.simps) simp
next
  case (Cons c t)
  have "quoted_run ((c # t) @ d # r) = None" using Cons.prems by (intro quoted_run_plain) auto
  moreover have "c \<noteq> d" using Cons.prems by simp
  moreover have "re_first_end d (t @ d # r) = length t" using Cons by simp
  ultimately show ?case by (subst re_first_end.simps) simp
qed

lemma quoted_split_consecutive:
  assumes "\<forall>c \<in> set t. \<not> is_quote c \<and> c \<noteq> d" and "\<not> is_quote d" and "\<not> isspace d"
  shows "quoted_split (t @ d # d # r) d = strip t # [] # quoted_split r d"
proof -
  have 1: "re_first_end d (t @ d # d # r) = length t"
    using assms by (rule re_first_end_plain)
  have 2: "re_first_end d (d # r) = 0"
    using re_first_end_plain [of "[]" d r] assms(2,3) by simp
  have "quoted_split (t @ d # d # r) d = strip t # quoted_split (d # r) d"
    using quoted_split_step [of "t @ d # d # r" d] 1 by simp
  also have "quoted_split (d # r) d = strip [] # quoted_split r d"
    using quoted_split_step [of "d # r" d] 2 by simp
  finally show ?thesis by (simp add: strip_def)
qed

subsection \<open>Quoted runs and fields\<close>

lemma quote_not_backslash: "is_quote q \<Longrightarrow> q \<noteq> backslash"
  by (auto simp: is_quote_def dquote_def squote_def backslash_def)

lemma quote_not_space: "is_quote q \<Longrightarrow> \<not> isspace q"
  by (auto simp: is_quote_def dquote_def squote_def isspace_def)

lemma quoted_body_closed:
  assumes q: "is_quote q"
  shows "(\<forall>c \<in> set body. c \<noteq> q \<and> c \<noteq> newline) \<Longrightarrow>
     (body \<noteq> [] \<longrightarrow> last body \<noteq> backslash) \<Longrightarrow> (body = [] \<longrightarrow> prev \<noteq> backslash) \<Longrightarrow>
     quoted_body K q prev (body @ q # rest) = (if K rest then Some (length body) else None)"
proof (induction body arbitrary: prev)
  case Nil
  from Nil have p: "prev \<noteq> backslash" by simp
  from q have qb: "q \<noteq> backslash" by (rule quote_not_backslash)
  show ?case
  proof (cases rest)
    case Nil
    with p show ?thesis by simp
  next
    case (Cons c' cs)
    have "quoted_body K q prev (q # c' # cs) =
        (if q = q \<and> prev \<noteq> backslash \<and> K (c' # cs) then Some 0 else None)"
      using qb by (simp only: quoted_body.simps(3)) simp
    with p Cons show ?thesis by simp
  qed
next
  case (Cons b bs)
  from Cons.prems(1) have b: "b \<noteq> q" "b \<noteq> newline"
    and bs: "\<forall>c \<in> set bs. c \<noteq> q \<and> c \<noteq> newline" by simp_all
  from Cons.prems(2) have l1: "bs \<noteq> [] \<longrightarrow> last bs \<noteq> backslash"
    and l2: "bs = [] \<longrightarrow> b \<noteq> backslash" by auto
  note IH = Cons.IH [OF bs l1 l2]
  obtain c' cs where t: "bs @ q # rest = c' # cs" by (cases bs) simp_all
  have nx: "\<not> (b = backslash \<and> c' = q)"
  proof (cases bs)
    case Nil
    with l2 show ?thesis by simp
  next
    case (Cons x xs)
    with t have "c' = x" by simp
    with bs Cons show ?thesis by simp
  qed
  have "quoted_body K q prev (b # c' # cs) =
      (case quoted_body K q b (c' # cs) of
         Some n \<Rightarrow> Some (Suc n)
       | None \<Rightarrow> None)"
    using b nx by (simp only: quoted_body.simps(3)) (simp split: option.splits)
  with IH t show ?case by simp
qed

lemma quoted_run_closed:
  assumes "is_quote q" and "\<forall>c \<in> set body. c \<noteq> q \<and> c \<noteq> newline"
    and "body \<noteq> [] \<longrightarrow> last body \<noteq> backslash"
  shows "quoted_run (q # body @ q # rest) =
     Some (length body + 2 + length (takeWhile isspace rest))"
proof -
  have ns: "\<not> isspace q" using assms(1) by (rule quote_not_space)
  have qb: "body = [] \<longrightarrow> q \<noteq> backslash" using assms(1) by (simp add: quote_not_backslash)
  have b: "quoted_body (\<lambda>r. True) q q (body @ q # rest) = Some (length body)"
    using quoted_body_closed [OF assms(1,2,3) qb, of "\<lambda>r. True" rest] by simp
  show ?thesis
    using ns b assms(1) by (simp add: quoted_run_def)
qed

lemma re_first_end_at_delimiter:
  assumes "\<not> is_quote d" and "\<not> isspace d"
  shows "re_first_end d (d # r) = 0"
  using re_first_end_plain [of "[]" d r] assms by simp

lemma strip_unchanged:
  assumes "s \<noteq> []" and "\<not> isspace (hd s)" and "\<not> isspace (last s)"
  shows "strip s = s"
proof -
  from assms(1,2) have 1: "dropWhile isspace s = s" by (cases s) simp_all
  from assms(1,3) have 2: "dropWhile isspace (rev s) = rev s"
    by (cases "rev s") (simp_all add: last_rev [symmetric] hd_rev)
  from 1 2 show ?thesis by (simp add: strip_def)
qed

lemma quoted_split_first:
  assumes "re_first_end d (t @ d # x) = length t"
  shows "quoted_split (t @ d # x) d = strip t # quoted_split x d"
  using quoted_split_step [of "t @ d # x" d] assms by simp

lemma quoted_split_empty_field:
  assumes "\<not> is_quote d" and "\<not> isspace d"
  shows "quoted_split (d # r) d = [] # quoted_split r d"
proof -
  have "re_first_end d ([] @ d # r) = length ([] :: string)"
    using re_first_end_at_delimiter [OF assms] by simp
  from quoted_split_first [OF this] show ?thesis by (simp add: strip_def)
qed

lemma quoted_split_quoted:
  assumes q: "is_quote q" and b: "\<forall>c \<in> set body. c \<noteq> q \<and> c \<noteq> newline"
    and l: "body \<noteq> [] \<longrightarrow> last body \<noteq> backslash"
    and d: "\<not> is_quote d" "\<not> isspace d"
  shows "re_first_end d ((q # body @ [q]) @ d # r) = length (q # body @ [q])"
    and "quoted_split (q # body @ q # d # r) d = (q # body @ [q]) # quoted_split r d"
    and "quoted_split (q # body @ [q]) d = [q # body @ [q]]"
proof -
  have ns: "\<not> isspace q" using q by (rule quote_not_space)
  have st: "strip (q # body @ [q]) = q # body @ [q]"
    using ns by (intro strip_unchanged) simp_all
  have r1: "quoted_run (q # body @ q # d # r) = Some (length body + 2)"
    using quoted_run_closed [OF q b l, of "d # r"] d by simp
  have e1: "re_first_end d (q # body @ q # d # r) = length body + 2"
    using r1 re_first_end_at_delimiter [OF d, of r]
    by (subst re_first_end.simps) simp
  then show a: "re_first_end d ((q # body @ [q]) @ d # r) = length (q # body @ [q])" by simp
  from quoted_split_first [OF a] st
  show "quoted_split (q # body @ q # d # r) d = (q # body @ [q]) # quoted_split r d" by simp
  have r2: "quoted_run (q # body @ [q]) = Some (length body + 2)"
    using quoted_run_closed [OF q b l, of "[]"] by simp
  have z: "re_first_end d [] = 0" by (subst re_first_end.simps) (simp add: quoted_run_def)
  have e2: "re_first_end d (q # body @ [q]) = length body + 2"
    using r2 z by (subst re_first_end.simps) simp
  show "quoted_split (q # body @ [q]) d = [q # body @ [q]]"
    using quoted_split_step [of "q # body @ [q]" d] e2 st by (simp add: quoted_split_Nil)
qed

lemma unquote_closed:
  assumes q: "is_quote q" and b: "\<forall>c \<in> set body. c \<noteq> q \<and> c \<noteq> newline"
    and l: "body \<noteq> [] \<longrightarrow> last body \<noteq> backslash"
  shows "unquote (q # body @ [q]) = Some body"
proof -
  have ns: "\<not> isspace q" using q by (rule quote_not_space)
  have qb: "body = [] \<longrightarrow> q \<noteq> backslash" using q by (simp add: quote_not_backslash)
  have "quoted_body (\<lambda>r. list_all isspace r) q q (body @ q # []) = Some (length body)"
    using quoted_body_closed [OF q b l qb, of "\<lambda>r. list_all isspace r" "[]"] by simp
  then show ?thesis using ns q by (simp add: unquote_def)
qed

lemma quoted_split_fields:
  assumes "\<forall>t \<in> set ts. \<forall>x. re_first_end d (t @ d # x) = length t"
  shows "quoted_split (concat (map (\<lambda>t. t @ [d]) ts) @ x) d = map strip ts @ quoted_split x d"
  using assms
proof (induction ts)
  case Nil
  then show ?case by simp
next
  case (Cons t ts)
  let ?rest = "concat (map (\<lambda>t. t @ [d]) ts) @ x"
  from Cons.prems have "re_first_end d (t @ d # ?rest) = length t" by simp
  from quoted_split_first [OF this] Cons show ?case by simp
qed

text \<open>
  C2, as the code has it. A quoted run is not split at the delimiters inside it, and the
  token is the whole match \<^verbatim>\<open>m[0]\<close>, the quoted run with its quotes:
  \<^verbatim>\<open>quoted_split('a,"b,c",d', ",")\<close> is \<^verbatim>\<open>['a', '"b,c"', 'd']\<close>, and the coercion
  \<^verbatim>\<open>string\<close> turns these tokens into \<^verbatim>\<open>a\<close>, \<^verbatim>\<open>b,c\<close> and \<^verbatim>\<open>d\<close>. The empty text has
  no token, \<^verbatim>\<open>"a,,b"\<close> has the tokens \<^verbatim>\<open>"a"\<close>, \<^verbatim>\<open>""\<close> and \<^verbatim>\<open>"b"\<close>. In general,
  for a delimiter \<open>d\<close> that is neither a quote nor white space:

  \<^item> every token is free of leading and trailing white space;
  \<^item> a run in quotes \<open>q\<close> whose body holds neither \<open>q\<close> nor a line feed and does not end
    in a backslash is one token, quotes included, whatever delimiters the body holds,
    before a delimiter and at the end of the text, and \<^verbatim>\<open>string\<close> gives its body;
  \<^item> a delimiter at the start of the text (so also every delimiter that follows
    another one) gives an empty token;
  \<^item> when the first match of a text ends in front of two delimiters, whatever kind of
    token \<open>t\<close> it covers, the tokens are \<open>t\<close> trimmed, the empty token, and the tokens of
    the rest;
  \<^item> a text made of fields that each end at their delimiter has the trimmed fields as
    its tokens, followed by the tokens of what comes behind them.
\<close>

theorem quoted_split_spec:
  "quoted_split (''a,'' @ [dquote] @ ''b,c'' @ [dquote] @ '',d'') (CHR '','') =
     [''a'', [dquote] @ ''b,c'' @ [dquote], ''d''] \<and>
   map (\<lambda>tok. string lib (PStr tok))
       (quoted_split (''a,'' @ [dquote] @ ''b,c'' @ [dquote] @ '',d'') (CHR '','')) =
     [Inr (PStr ''a''), Inr (PStr ''b,c''), Inr (PStr ''d'')] \<and>
   quoted_split [] (CHR '','') = [] \<and>
   quoted_split ''a,,b'' (CHR '','') = [''a'', [], ''b''] \<and>
   (\<forall>tok \<in> set (quoted_split t d).
      tok = [] \<or> (\<not> isspace (hd tok) \<and> \<not> isspace (last tok))) \<and>
   (is_quote q \<and> (\<forall>c \<in> set body. c \<noteq> q \<and> c \<noteq> newline) \<and>
    (body \<noteq> [] \<longrightarrow> last body \<noteq> backslash) \<and> \<not> is_quote d \<and> \<not> isspace d \<longrightarrow>
      quoted_split (q # body @ q # d # r) d = (q # body @ [q]) # quoted_split r d \<and>
      quoted_split (q # body @ [q]) d = [q # body @ [q]] \<and>
      string lib (PStr (q # body @ [q])) = Inr (PStr body)) \<and>
   (\<not> is_quote d \<and> \<not> isspace d \<longrightarrow> quoted_split (d # r) d = [] # quoted_split r d) \<and>
   (\<not> is_quote d \<and> \<not> isspace d \<and> re_first_end d (t @ d # d # r) = length t \<longrightarrow>
      quoted_split (t @ d # d # r) d = strip t # [] # quoted_split r d) \<and>
   ((\<forall>f \<in> set fs. \<forall>x. re_first_end d (f @ d # x) = length f) \<longrightarrow>
      quoted_split (concat (map (\<lambda>f. f @ [d]) fs) @ r) d = map strip fs @ quoted_split r d)"
proof -
  have e1: "quoted_split (''a,'' @ [dquote] @ ''b,c'' @ [dquote] @ '',d'') (CHR '','') =
     [''a'', [dquote] @ ''b,c'' @ [dquote], ''d'']"
    by code_simp
  have e1s: "map (\<lambda>tok. string lib (PStr tok))
       (quoted_split (''a,'' @ [dquote] @ ''b,c'' @ [dquote] @ '',d'') (CHR '','')) =
     [Inr (PStr ''a''), Inr (PStr ''b,c''), Inr (PStr ''d'')]"
    by code_simp
  have e2: "quoted_split [] (CHR '','') = []"
    by (rule quoted_split_Nil)
  have e3: "quoted_split ''a,,b'' (CHR '','') = [''a'', [], ''b'']"
    by code_simp
  have g1: "\<forall>tok \<in> set (quoted_split t d).
      tok = [] \<or> (\<not> isspace (hd tok) \<and> \<not> isspace (last tok))"
    by (rule quoted_split_trimmed)
  have gq: "is_quote q \<and> (\<forall>c \<in> set body. c \<noteq> q \<and> c \<noteq> newline) \<and>
    (body \<noteq> [] \<longrightarrow> last body \<noteq> backslash) \<and> \<not> is_quote d \<and> \<not> isspace d \<longrightarrow>
      quoted_split (q # body @ q # d # r) d = (q # body @ [q]) # quoted_split r d \<and>
      quoted_split (q # body @ [q]) d = [q # body @ [q]] \<and>
      string lib (PStr (q # body @ [q])) = Inr (PStr body)"
  proof
    assume h: "is_quote q \<and> (\<forall>c \<in> set body. c \<noteq> q \<and> c \<noteq> newline) \<and>
      (body \<noteq> [] \<longrightarrow> last body \<noteq> backslash) \<and> \<not> is_quote d \<and> \<not> isspace d"
    then have q: "is_quote q" and b: "\<forall>c \<in> set body. c \<noteq> q \<and> c \<noteq> newline"
      and l: "body \<noteq> [] \<longrightarrow> last body \<noteq> backslash"
      and d: "\<not> is_quote d" "\<not> isspace d" by simp_all
    have "string lib (PStr (q # body @ [q])) = Inr (PStr body)"
      using unquote_closed [OF q b l] by simp
    with quoted_split_quoted(2,3) [OF q b l d]
    show "quoted_split (q # body @ q # d # r) d = (q # body @ [q]) # quoted_split r d \<and>
      quoted_split (q # body @ [q]) d = [q # body @ [q]] \<and>
      string lib (PStr (q # body @ [q])) = Inr (PStr body)" by simp
  qed
  have gd: "\<not> is_quote d \<and> \<not> isspace d \<longrightarrow> quoted_split (d # r) d = [] # quoted_split r d"
    using quoted_split_empty_field [of d r] by blast
  have gc: "\<not> is_quote d \<and> \<not> isspace d \<and> re_first_end d (t @ d # d # r) = length t \<longrightarrow>
      quoted_split (t @ d # d # r) d = strip t # [] # quoted_split r d"
    using quoted_split_first [of d t "d # r"] quoted_split_empty_field [of d r] by simp
  have gf: "(\<forall>f \<in> set fs. \<forall>x. re_first_end d (f @ d # x) = length f) \<longrightarrow>
      quoted_split (concat (map (\<lambda>f. f @ [d]) fs) @ r) d = map strip fs @ quoted_split r d"
    using quoted_split_fields [of fs d r] by blast
  from e1 e1s e2 e3 g1 gq gd gc gf show ?thesis by (intro conjI)
qed

text \<open>
  A quoted first token in front of two delimiters, \<^verbatim>\<open>"x,y",,b\<close>; a text that starts
  with the delimiter; and a plain field, an empty field and a field in single quotes
  in front of a last token.
\<close>

theorem quoted_split_spec_witness:
  "quoted_split ([dquote] @ ''x,y'' @ [dquote] @ '',,b'') (CHR '','') =
     [[dquote] @ ''x,y'' @ [dquote], [], ''b''] \<and>
   string example_lib (PStr ([dquote] @ ''x,y'' @ [dquote])) = Inr (PStr ''x,y'') \<and>
   list_all (\<lambda>tok. tok = [] \<or> (\<not> isspace (hd tok) \<and> \<not> isspace (last tok)))
     (quoted_split ([dquote] @ ''x,y'' @ [dquote] @ '',,b'') (CHR '','')) \<and>
   quoted_split '',b'' (CHR '','') = [[], ''b''] \<and>
   quoted_split (''a ,,'' @ [squote] @ ''x,y'' @ [squote] @ '',b'') (CHR '','') =
     [''a'', [], [squote] @ ''x,y'' @ [squote], ''b'']"
proof -
  let ?t = "[dquote] @ ''x,y'' @ [dquote]"
  let ?s = "[squote] @ ''x,y'' @ [squote]"
  have d: "\<not> is_quote (CHR '','')" "\<not> isspace (CHR '','')"
    by (simp_all add: is_quote_def isspace_def dquote_def squote_def)
  have q: "is_quote dquote" by (simp add: is_quote_def)
  have q': "is_quote squote" by (simp add: is_quote_def)
  have b: "\<forall>c \<in> set ''x,y''. c \<noteq> dquote \<and> c \<noteq> newline"
    by (simp add: dquote_def newline_def)
  have b': "\<forall>c \<in> set ''x,y''. c \<noteq> squote \<and> c \<noteq> newline"
    by (simp add: squote_def newline_def)
  have l: "''x,y'' \<noteq> [] \<longrightarrow> last ''x,y'' \<noteq> backslash" by (simp add: backslash_def)
  have e: "re_first_end (CHR '','') (?t @ CHR '','' # CHR '','' # ''b'') = length ?t" by code_simp
  have s: "strip ?t = ?t" by code_simp
  have z: "quoted_split ''b'' (CHR '','') = [''b'']" by code_simp
  note th = quoted_split_spec [where t = ?t and d = "CHR '',''" and r = "''b''"
      and q = dquote and body = "''x,y''" and lib = example_lib
      and fs = "[''a '', [], ?s]"]
  from th d e have "quoted_split (?t @ CHR '','' # CHR '','' # ''b'') (CHR '','') =
      strip ?t # [] # quoted_split ''b'' (CHR '','')" by blast
  with s z have 1: "quoted_split ([dquote] @ ''x,y'' @ [dquote] @ '',,b'') (CHR '','') =
      [[dquote] @ ''x,y'' @ [dquote], [], ''b'']" by simp
  from th q b l d have "string example_lib (PStr (dquote # ''x,y'' @ [dquote])) = Inr (PStr ''x,y'')"
    by blast
  then have 2: "string example_lib (PStr ([dquote] @ ''x,y'' @ [dquote])) = Inr (PStr ''x,y'')"
    by simp
  from quoted_split_spec [where t = "[dquote] @ ''x,y'' @ [dquote] @ '',,b''" and d = "CHR '',''"]
  have "\<forall>tok \<in> set (quoted_split ([dquote] @ ''x,y'' @ [dquote] @ '',,b'') (CHR '','')).
      tok = [] \<or> (\<not> isspace (hd tok) \<and> \<not> isspace (last tok))" by blast
  then have 3: "list_all (\<lambda>tok. tok = [] \<or> (\<not> isspace (hd tok) \<and> \<not> isspace (last tok)))
     (quoted_split ([dquote] @ ''x,y'' @ [dquote] @ '',,b'') (CHR '',''))"
    by (simp only: list_all_iff)
  from th d have "quoted_split (CHR '','' # ''b'') (CHR '','') = [] # quoted_split ''b'' (CHR '','')"
    by blast
  with z have 4: "quoted_split '',b'' (CHR '','') = [[], ''b'']" by simp
  have f1: "\<forall>x. re_first_end (CHR '','') (''a '' @ CHR '','' # x) = length ''a ''"
  proof
    fix x show "re_first_end (CHR '','') (''a '' @ CHR '','' # x) = length ''a ''"
      using d by (intro re_first_end_plain) (simp_all add: is_quote_def dquote_def squote_def)
  qed
  have f2: "\<forall>x. re_first_end (CHR '','') ([] @ CHR '','' # x) = length ([] :: string)"
    using re_first_end_at_delimiter [OF d] by simp
  have f3: "\<forall>x. re_first_end (CHR '','') (?s @ CHR '','' # x) = length ?s"
    using quoted_split_quoted(1) [OF q' b' l d] by simp
  from f1 f2 f3 have fs: "\<forall>f \<in> set [''a '', [], ?s].
      \<forall>x. re_first_end (CHR '','') (f @ CHR '','' # x) = length f" by simp
  from th fs have "quoted_split (concat (map (\<lambda>f. f @ [CHR '','']) [''a '', [], ?s]) @ ''b'') (CHR '','') =
      map strip [''a '', [], ?s] @ quoted_split ''b'' (CHR '','')" by blast
  moreover have "map strip [''a '', [], ?s] = [''a'', [], ?s]" by code_simp
  ultimately have 5: "quoted_split (''a ,,'' @ [squote] @ ''x,y'' @ [squote] @ '',b'') (CHR '','') =
     [''a'', [], [squote] @ ''x,y'' @ [squote], ''b'']" using z by simp
  from 1 2 3 4 5 show ?thesis by (intro conjI)
qed

text \<open>
  The claim as it was stated gives the middle token without its quotes; the code keeps
  them.
\<close>

theorem quoted_split_quotes_counterexample:
  "quoted_split (''a,'' @ [dquote] @ ''b,c'' @ [dquote] @ '',d'') (CHR '','') \<noteq>
     [''a'', ''b,c'', ''d'']"
  by code_simp

text \<open>
  C10. A delimiter at the very end of the text ends the last token and nothing follows
  it: the loop stops when the text is used up, so no empty token is produced behind
  the final delimiter. For a delimiter that is neither white space nor a quote (as
  \<^verbatim>\<open>","\<close> and \<^verbatim>\<open>":"\<close>), a text \<open>t\<close> that is not empty and does not itself end in the
  delimiter has the same tokens with and without a delimiter appended. When \<open>t\<close> is
  empty or ends in the delimiter, the appended delimiter closes an empty field, the
  token between the two delimiters (or between the start and the delimiter), and again
  nothing stands behind it. So \<^verbatim>\<open>"a,"\<close> gives \<^verbatim>\<open>["a"]\<close>, \<^verbatim>\<open>","\<close> gives \<^verbatim>\<open>[""]\<close>,
  and a command ending in \<^verbatim>\<open>":"\<close> has no empty last argument, while \<^verbatim>\<open>"a,,b"\<close> has
  an empty token in the middle.
\<close>

theorem quoted_split_trailing:
  "(\<not> isspace d \<and> \<not> is_quote d \<longrightarrow>
      quoted_split (t @ [d]) d =
        (if t = [] \<or> last t = d then quoted_split t d @ [[]] else quoted_split t d)) \<and>
   quoted_split ''a,'' (CHR '','') = [''a''] \<and>
   quoted_split '','' (CHR '','') = [[]] \<and>
   quoted_split ''beep:440:'' (CHR '':'') = [''beep'', ''440''] \<and>
   quoted_split ''a,,b'' (CHR '','') = [''a'', [], ''b'']"
proof -
  have g: "\<not> isspace d \<and> \<not> is_quote d \<longrightarrow>
      quoted_split (t @ [d]) d =
        (if t = [] \<or> last t = d then quoted_split t d @ [[]] else quoted_split t d)"
    using quoted_split_trailing_delimiter [of d t] by blast
  have e1: "quoted_split ''a,'' (CHR '','') = [''a'']" by code_simp
  have e2: "quoted_split '','' (CHR '','') = [[]]" by code_simp
  have e3: "quoted_split ''beep:440:'' (CHR '':'') = [''beep'', ''440'']" by code_simp
  have e4: "quoted_split ''a,,b'' (CHR '','') = [''a'', [], ''b'']" by code_simp
  from g e1 e2 e3 e4 show ?thesis by blast
qed

theorem quoted_split_trailing_witness:
  "\<not> isspace (CHR '':'') \<and> \<not> is_quote (CHR '':'') \<and>
   quoted_split (''nec:1:2'' @ '':'') (CHR '':'') = quoted_split ''nec:1:2'' (CHR '':'') \<and>
   quoted_split (''nec:1:'' @ '':'') (CHR '':'') = quoted_split ''nec:1:'' (CHR '':'') @ [[]]"
proof -
  have h: "\<not> isspace (CHR '':'') \<and> \<not> is_quote (CHR '':'')"
    by (simp add: is_quote_def isspace_def dquote_def squote_def)
  from quoted_split_trailing [of "CHR '':''" "''nec:1:2''"] h
  have a: "quoted_split (''nec:1:2'' @ '':'') (CHR '':'') = quoted_split ''nec:1:2'' (CHR '':'')"
    by simp
  from quoted_split_trailing [of "CHR '':''" "''nec:1:''"] h
  have b: "quoted_split (''nec:1:'' @ '':'') (CHR '':'') = quoted_split ''nec:1:'' (CHR '':'') @ [[]]"
    by simp
  from h a b show ?thesis by blast
qed

section \<open>The integer types of the catalog\<close>

lemma integer_range_coerces:
  "coerces_integers (integer_range (Some lo) (Some hi) True True) lo hi"
  unfolding coerces_integers_def
proof (intro conjI allI)
  fix n show "integer_range (Some lo) (Some hi) True True (PInt n) =
         (if n < lo then invalid (ValueAtLeast lo)
          else if hi < n then invalid (ValueAtMost hi) else Inr (PInt n))"
    by (simp add: integer_range_def vol_Range_def invalid_def)
next
  fix b show "integer_range (Some lo) (Some hi) True True (PBool b) =
         (if bool_int b < lo then invalid (ValueAtLeast lo)
          else if hi < bool_int b then invalid (ValueAtMost hi) else Inr (PBool b))"
    by (cases b) (auto simp: integer_range_def vol_Range_def bool_int_def invalid_def)
next
  fix r show "integer_range (Some lo) (Some hi) True True (PFloat r) =
         (if of_int (py_trunc r) = r then integer_range (Some lo) (Some hi) True True (PInt (py_trunc r)) else invalid HasFractionalPart)"
    by (simp add: integer_range_def invalid_def)
next
  fix s show "integer_range (Some lo) (Some hi) True True (PStr s) =
         (case py_int (lower s) (if startswith (lower s) ''0x'' then 16 else 10) of
            Some n \<Rightarrow> integer_range (Some lo) (Some hi) True True (PInt n)
          | None \<Rightarrow> invalid (CannotParseInteger (lower s)))"
    by (simp add: integer_range_def invalid_def Let_def split: option.splits)
qed (simp_all add: integer_range_def invalid_def)


text \<open>
  C3, as the code has it. The catalog has an integer rule for the signed 32-bit types
  \<^verbatim>\<open>int\<close> and \<^verbatim>\<open>int32_t\<close> and for the unsigned types \<^verbatim>\<open>uint\<close>, \<^verbatim>\<open>uint8_t\<close>,
  \<^verbatim>\<open>uint16_t\<close>, \<^verbatim>\<open>uint32_t\<close> and \<^verbatim>\<open>uint64_t\<close>, each with the inclusive bounds of its
  width; it has no signed type of 8, 16 or 64 bits. Each rule behaves as
  \<open>coerces_integers\<close> says. \<^verbatim>\<open>"0xFF"\<close> for \<^verbatim>\<open>uint8_t\<close> gives 255, 256 is out of range,
  3.0 for \<^verbatim>\<open>int32_t\<close> gives 3 and 3.5 fails.
\<close>

theorem integer_types_spec:
  "list_all
     (\<lambda>(t, lo, hi). t \<in> fst ` set (CPP_TYPES lib) \<and> coerces_integers (cpp_type lib t) lo hi)
     [(''int'', - (2 ^ 31), 2 ^ 31 - 1), (''int32_t'', - (2 ^ 31), 2 ^ 31 - 1),
      (''uint'', 0, 2 ^ 32 - 1), (''uint8_t'', 0, 2 ^ 8 - 1), (''uint16_t'', 0, 2 ^ 16 - 1),
      (''uint32_t'', 0, 2 ^ 32 - 1), (''uint64_t'', 0, 2 ^ 64 - 1)] \<and>
   map_of (CPP_TYPES lib) ''int8_t'' = None \<and>
   map_of (CPP_TYPES lib) ''int16_t'' = None \<and>
   map_of (CPP_TYPES lib) ''int64_t'' = None \<and>
   cpp_type lib ''uint8_t'' (PStr ''0xFF'') = Inr (PInt 255) \<and>
   cpp_type lib ''uint8_t'' (PInt 256) = invalid (ValueAtMost 255) \<and>
   cpp_type lib ''int32_t'' (PFloat 3) = Inr (PInt 3) \<and>
   cpp_type lib ''int32_t'' (PFloat (7 / 2)) = invalid HasFractionalPart"
proof -
  have a: "cpp_type lib ''int'' = integer_range (Some (- (2 ^ 31))) (Some (2 ^ 31 - 1)) True True"
    by (rule ext) (simp add: cpp_type_def CPP_TYPES_def)
  have b: "cpp_type lib ''int32_t'' = integer_range (Some (- (2 ^ 31))) (Some (2 ^ 31 - 1)) True True"
    by (rule ext) (simp add: cpp_type_def CPP_TYPES_def)
  have c: "cpp_type lib ''uint'' = integer_range (Some 0) (Some (2 ^ 32 - 1)) True True"
    by (rule ext) (simp add: cpp_type_def CPP_TYPES_def)
  have d: "cpp_type lib ''uint8_t'' = integer_range (Some 0) (Some (2 ^ 8 - 1)) True True"
    by (rule ext) (simp add: cpp_type_def CPP_TYPES_def)
  have e: "cpp_type lib ''uint16_t'' = integer_range (Some 0) (Some (2 ^ 16 - 1)) True True"
    by (rule ext) (simp add: cpp_type_def CPP_TYPES_def)
  have f: "cpp_type lib ''uint32_t'' = integer_range (Some 0) (Some (2 ^ 32 - 1)) True True"
    by (rule ext) (simp add: cpp_type_def CPP_TYPES_def)
  have g: "cpp_type lib ''uint64_t'' = integer_range (Some 0) (Some (2 ^ 64 - 1)) True True"
    by (rule ext) (simp add: cpp_type_def CPP_TYPES_def)
  have k: "set [''int'', ''int32_t'', ''uint'', ''uint8_t'', ''uint16_t'', ''uint32_t'', ''uint64_t'']
      \<subseteq> fst ` set (CPP_TYPES lib)"
    by (simp add: CPP_TYPES_def)
  have rules: "list_all
     (\<lambda>(t, lo, hi). t \<in> fst ` set (CPP_TYPES lib) \<and> coerces_integers (cpp_type lib t) lo hi)
     [(''int'', - (2 ^ 31), 2 ^ 31 - 1), (''int32_t'', - (2 ^ 31), 2 ^ 31 - 1),
      (''uint'', 0, 2 ^ 32 - 1), (''uint8_t'', 0, 2 ^ 8 - 1), (''uint16_t'', 0, 2 ^ 16 - 1),
      (''uint32_t'', 0, 2 ^ 32 - 1), (''uint64_t'', 0, 2 ^ 64 - 1)]"
    using k by (simp add: a b c d e f g integer_range_coerces del: One_nat_def)
  have n1: "map_of (CPP_TYPES lib) ''int8_t'' = None" by (simp add: CPP_TYPES_def)
  have n2: "map_of (CPP_TYPES lib) ''int16_t'' = None" by (simp add: CPP_TYPES_def)
  have n3: "map_of (CPP_TYPES lib) ''int64_t'' = None" by (simp add: CPP_TYPES_def)
  have e1: "cpp_type lib ''uint8_t'' (PStr ''0xFF'') = Inr (PInt 255)" by code_simp
  have e2: "cpp_type lib ''uint8_t'' (PInt 256) = invalid (ValueAtMost 255)" by code_simp
  have e3: "cpp_type lib ''int32_t'' (PFloat 3) = Inr (PInt 3)" by code_simp
  have e4: "cpp_type lib ''int32_t'' (PFloat (7 / 2)) = invalid HasFractionalPart" by code_simp
  from rules n1 n2 n3 e1 e2 e3 e4 show ?thesis by blast
qed

text \<open>
  The claim as it was stated asks for a rule for every signed type of 8, 16, 32 and 64
  bits; the catalog has none for \<^verbatim>\<open>int8_t\<close>, so \<^verbatim>\<open>CPP_TYPES["int8_t"]\<close> is a
  \<^verbatim>\<open>KeyError\<close>.
\<close>

theorem integer_types_counterexample:
  "map_of (CPP_TYPES example_lib) ''int8_t'' = None \<and>
   cpp_type example_lib ''int8_t'' (PInt 1) = Inl (KeyError (PStr ''int8_t''))"
  by (simp add: CPP_TYPES_def cpp_type_def)

section \<open>End-to-end validation of a command\<close>

lemma beep_cache_ready: "initialize example_lib no_mappings beep_catalog = Inr beep_cache"
proof -
  have "case initialize example_lib no_mappings beep_catalog of Inl e \<Rightarrow> False | Inr cache \<Rightarrow> True"
    by code_simp
  then show ?thesis by (auto simp: beep_cache_def split: sum.splits)
qed

text \<open>
  C1. With the catalog of the example loaded (whatever the store of parameter mappings
  holds: the catalog has none), \<^verbatim>\<open>validate_send_command("beep:440")\<close>
  returns the command with the protocol \<^verbatim>\<open>"beep"\<close> and the arguments \<open>[440, 100]\<close>;
  \<^verbatim>\<open>"beep:440:200:99"\<close> is refused because it has more values than the protocol has
  arguments (the error that \<^verbatim>\<open>args_to_dict\<close> raises, reported by \<^verbatim>\<open>validate_command\<close>
  with the signature of the protocol); \<^verbatim>\<open>"unknown:1"\<close> is refused because no protocol
  of that name is defined.
\<close>

theorem beep_end_to_end:
  "case initialize lib store beep_catalog of
     Inl e \<Rightarrow> False
   | Inr cache \<Rightarrow>
       validate_send_command lib cache (PStr ''beep:440'') =
         Inr [(''protocol'', PStr ''beep''), (''args'', PList [PInt 440, PInt 100])] \<and>
       validate_send_command lib cache (PStr ''beep:440:200:99'') =
         invalid (MalformattedCommand ''beep'' ''beep:<uint16 freq>:<uint16 duration?=100>''
           [(''protocol'', PStr ''beep''),
            (''args'', PList [PStr ''440'', PStr ''200'', PStr ''99''])]
           None (ExpectedMaximumArguments 2 ''beep'')) \<and>
       validate_send_command lib cache (PStr ''unknown:1'') =
         invalid_at (ProtocolNotDefined ''unknown'') [PStr ''protocol'']"
  by code_simp

section \<open>Looking up a protocol\<close>

lemma validate_protocol_name_lower:
  assumes "cache_def cache = Some defs" and "lower S \<in> fst ` set defs"
  shows "validate_protocol_name cache (PStr S) = Inr (PStr (lower S))"
  using assms by (simp add: validate_protocol_name_def)

lemma get_proto_def_exact:
  assumes "cache_def cache = Some defs" and "map_of defs N = Some pd" and "lower N = N"
  shows "get_proto_def cache (PStr N) = Inr pd"
proof -
  from assms(2) have "N \<in> fst ` set defs" by (metis map_of_eq_None_iff option.distinct(1))
  with assms show ?thesis by (simp add: get_proto_def_def validate_protocol_name_def)
qed

lemma validate_command_protocol_case:
  assumes "cache_def cache = Some defs" and "map_of defs N = Some pd" and "lower N = N" and "lower S = N"
  shows "validate_command lib cache [(''protocol'', PStr S), (''args'', a)] =
         validate_command lib cache [(''protocol'', PStr N), (''args'', a)]"
proof -
  from assms(2) have n: "N \<in> fst ` set defs" by (metis map_of_eq_None_iff option.distinct(1))
  have s: "validate_protocol_name cache (PStr S) = Inr (PStr N)"
    using assms n by (simp add: validate_protocol_name_def)
  have t: "validate_protocol_name cache (PStr N) = Inr (PStr N)"
    using assms n by (simp add: validate_protocol_name_def)
  let ?E = "[(Required ''protocol'', validate_protocol_name cache),
              (Required ''args'', vol_Length (Some 1) None)]"
  have m1: "missing_required ?E [(''protocol'', PStr S), (''args'', a)] = []" by simp
  have m2: "missing_required ?E [(''protocol'', PStr N), (''args'', a)] = []" by simp
  have d1: "default_pairs ?E [(''protocol'', PStr S), (''args'', a)] = [(''protocol'', PStr S), (''args'', a)]"
    by simp
  have d2: "default_pairs ?E [(''protocol'', PStr N), (''args'', a)] = [(''protocol'', PStr N), (''args'', a)]"
    by simp
  have l: "mapping_loop ?E [(''protocol'', PStr S), (''args'', a)] [] [] =
           mapping_loop ?E [(''protocol'', PStr N), (''args'', a)] [] []"
    by (simp add: s t)
  have "vol_mapping ?E [(''protocol'', PStr S), (''args'', a)] =
        vol_mapping ?E [(''protocol'', PStr N), (''args'', a)]"
    by (simp only: vol_mapping_def Let_def d1 d2 l m1 m2)
  then show ?thesis by (simp only: validate_command_def)
qed


text \<open>
  C5, as the code has it. The name that is looked up is the lower-cased query. So for a
  protocol stored under a name \<open>N\<close> without capital letters and a string \<open>S\<close> whose
  lower-cased form is \<open>N\<close>, \<^verbatim>\<open>validate_protocol_name\<close> accepts \<open>S\<close> and returns \<open>N\<close>,
  \<^verbatim>\<open>get_proto_def(N)\<close> returns the definition stored under \<open>N\<close>, and the validation of
  a command with the protocol \<open>S\<close> is the validation of the same command with the
  protocol \<open>N\<close>.
\<close>

theorem protocol_lookup:
  "cache_def cache = Some defs \<and> map_of defs N = Some pd \<and> lower N = N \<and> lower S = N \<longrightarrow>
     validate_protocol_name cache (PStr S) = Inr (PStr N) \<and>
     get_proto_def cache (PStr N) = Inr pd \<and>
     validate_command lib cache [(''protocol'', PStr S), (''args'', a)] =
       validate_command lib cache [(''protocol'', PStr N), (''args'', a)]"
proof
  assume h: "cache_def cache = Some defs \<and> map_of defs N = Some pd \<and> lower N = N \<and> lower S = N"
  then have n: "N \<in> fst ` set defs" by (metis map_of_eq_None_iff option.distinct(1))
  from h n have 1: "validate_protocol_name cache (PStr S) = Inr (PStr N)"
    using validate_protocol_name_lower [of cache defs S] by simp
  from h have 2: "get_proto_def cache (PStr N) = Inr pd"
    using get_proto_def_exact [of cache defs N pd] by simp
  from h have 3: "validate_command lib cache [(''protocol'', PStr S), (''args'', a)] =
       validate_command lib cache [(''protocol'', PStr N), (''args'', a)]"
    using validate_command_protocol_case [of cache defs N pd S lib a] by simp
  from 1 2 3 show "validate_protocol_name cache (PStr S) = Inr (PStr N) \<and>
     get_proto_def cache (PStr N) = Inr pd \<and>
     validate_command lib cache [(''protocol'', PStr S), (''args'', a)] =
       validate_command lib cache [(''protocol'', PStr N), (''args'', a)]"
    by blast
qed

theorem protocol_lookup_witness:
  "lower ''BeEp'' = ''beep'' \<and>
   validate_protocol_name beep_cache (PStr ''BeEp'') = Inr (PStr ''beep'') \<and>
   get_proto_def beep_cache (PStr ''beep'') = Inr (snd (hd beep_catalog)) \<and>
   validate_command example_lib beep_cache [(''protocol'', PStr ''BeEp''), (''args'', PList [PInt 440])] =
     Inr [(''protocol'', PStr ''beep''), (''args'', PList [PInt 440, PInt 100])]"
proof -
  have "case initialize example_lib no_mappings beep_catalog of
      Inl e \<Rightarrow> False
    | Inr cache \<Rightarrow>
        cache_def cache = Some beep_catalog \<and>
        validate_command example_lib cache [(''protocol'', PStr ''beep''), (''args'', PList [PInt 440])] =
          Inr [(''protocol'', PStr ''beep''), (''args'', PList [PInt 440, PInt 100])]"
    by code_simp
  then have c: "cache_def beep_cache = Some beep_catalog"
    and v: "validate_command example_lib beep_cache [(''protocol'', PStr ''beep''), (''args'', PList [PInt 440])] =
          Inr [(''protocol'', PStr ''beep''), (''args'', PList [PInt 440, PInt 100])]"
    by (simp_all add: beep_cache_ready)
  have m: "map_of beep_catalog ''beep'' = Some (snd (hd beep_catalog))"
    by (simp add: beep_catalog_def)
  have l1: "lower ''beep'' = ''beep''" by code_simp
  have l2: "lower ''BeEp'' = ''beep''" by code_simp
  from protocol_lookup [of beep_cache beep_catalog "''beep''" "snd (hd beep_catalog)" "''BeEp''"
      example_lib "PList [PInt 440]"] c m l1 l2
  have "validate_protocol_name beep_cache (PStr ''BeEp'') = Inr (PStr ''beep'') \<and>
     get_proto_def beep_cache (PStr ''beep'') = Inr (snd (hd beep_catalog)) \<and>
     validate_command example_lib beep_cache [(''protocol'', PStr ''BeEp''), (''args'', PList [PInt 440])] =
       validate_command example_lib beep_cache [(''protocol'', PStr ''beep''), (''args'', PList [PInt 440])]"
    by blast
  with v l2 show ?thesis by simp
qed

text \<open>
  The claim as it was stated holds for no name with a capital letter: a catalog may
  store the protocol \<^verbatim>\<open>Beep\<close> (the name is an identifier, so the catalog loads), and
  then the look-up of \<^verbatim>\<open>"Beep"\<close> itself fails, because \<^verbatim>\<open>"beep"\<close> is not a key.
\<close>

theorem protocol_lookup_counterexample:
  "case initialize example_lib no_mappings capital_catalog of
     Inl e \<Rightarrow> False
   | Inr cache \<Rightarrow>
       map fst (the (cache_def cache)) = [''Beep''] \<and>
       validate_protocol_name cache (PStr ''Beep'') = invalid (ProtocolNotDefined ''beep'') \<and>
       get_proto_def cache (PStr ''Beep'') = invalid (ProtocolNotDefined ''beep'') \<and>
       validate_command example_lib cache
           [(''protocol'', PStr ''Beep''), (''args'', PList [PInt 1])] =
         invalid_at (ProtocolNotDefined ''beep'') [PStr ''protocol'']"
  by code_simp

section \<open>The registry at command time\<close>

text \<open>
  Each procedure returns the registry it was given, and its result is the result that
  the function of the registry gives.
\<close>

lemma validate_protocol_name_st_eq:
  "validate_protocol_name_st v c = (validate_protocol_name c v, c)"
  by (simp add: validate_protocol_name_st_def validate_protocol_name_def
      split: sum.splits pyval.splits option.splits)

lemma get_proto_def_st_eq: "get_proto_def_st v c = (get_proto_def c v, c)"
  by (simp add: get_proto_def_st_def get_proto_def_def validate_protocol_name_st_eq
      split: sum.splits pyval.splits option.splits)

lemma get_proto_signature_st_eq:
  "get_proto_signature_st lib v c = (get_proto_signature lib c v, c)"
  by (simp add: get_proto_signature_st_def get_proto_signature_def get_proto_def_st_eq
      split: sum.splits)

lemma args_to_dict_st_eq:
  "args_to_dict_st lib p a c = (args_to_dict lib c p a, c)"
  by (simp add: args_to_dict_st_def args_to_dict_def get_proto_def_st_eq
      split: sum.splits option.splits)

lemma validate_args_st_eq:
  "validate_args_st lib p a c = (validate_args lib c p a, c)"
  by (simp add: validate_args_st_def validate_args_def args_to_dict_st_eq
      split: sum.splits)

lemma default_pairs_reads: "default_pairs (reads s E) kvm = default_pairs E kvm"
proof (induction E arbitrary: kvm)
  case Nil
  then show ?case by (simp add: reads_def)
next
  case (Cons e E)
  obtain m f where e: "e = (m, f)" by (cases e)
  from Cons have ih: "\<And>kvm. default_pairs (reads s E) kvm = default_pairs E kvm" by simp
  show ?case using e ih by (cases m) (simp_all add: reads_def)
qed

lemma missing_required_reads: "missing_required (reads s E) kvm = missing_required E kvm"
proof (induction E)
  case Nil
  then show ?case by (simp add: reads_def)
next
  case (Cons e E)
  obtain m f where e: "e = (m, f)" by (cases e)
  from Cons have ih: "missing_required (reads s E) kvm = missing_required E kvm" by simp
  show ?case using e ih by (cases m) (simp_all add: reads_def)
qed

lemma find_entry_reads:
  "find_entry (reads s E) k = map_option (\<lambda>f v. fst (f v s)) (find_entry E k)"
  by (induction E) (auto simp: reads_def)

lemma find_entry_member: "find_entry E k = Some f \<Longrightarrow> f \<in> snd ` set E"
  by (induction E) (auto split: if_splits)

lemma mapping_loop_st_eq:
  assumes "\<forall>f \<in> snd ` set E. \<forall>v. snd (f v s) = s"
  shows "mapping_loop_st E kvm out errs s = (mapping_loop (reads s E) kvm out errs, s)"
proof (induction kvm arbitrary: out errs)
  case Nil
  then show ?case by simp
next
  case (Cons kv kvm)
  obtain k v where kv: "kv = (k, v)" by (cases kv)
  show ?case
  proof (cases "find_entry E k")
    case None
    with kv Cons show ?thesis by (simp add: find_entry_reads)
  next
    case (Some f)
    from find_entry_member [OF Some] assms have fr: "snd (f v s) = s" by blast
    obtain r where r: "f v s = (r, s)" using fr by (metis prod.collapse)
    show ?thesis
    proof (cases r)
      case (Inr w)
      with kv Cons Some r show ?thesis by (simp add: find_entry_reads)
    next
      case (Inl e)
      with kv Cons Some r show ?thesis by (cases e) (simp_all add: find_entry_reads)
    qed
  qed
qed

lemma vol_mapping_st_eq:
  assumes "\<forall>f \<in> snd ` set E. \<forall>v. snd (f v s) = s"
  shows "vol_mapping_st E data s = (vol_mapping (reads s E) data, s)"
  by (simp add: vol_mapping_st_def vol_mapping_def Let_def mapping_loop_st_eq [OF assms]
      default_pairs_reads missing_required_reads split: sum.splits prod.splits)

lemma validate_command_st_eq:
  "validate_command_st lib command c = (validate_command lib c command, c)"
proof -
  let ?E = "[(Required ''protocol'', validate_protocol_name_st),
              (Required ''args'', \<lambda>v s. (vol_Length (Some 1) None v, s))]"
  have fr: "\<forall>f \<in> snd ` set ?E. \<forall>v. snd (f v c) = c"
    by (simp add: validate_protocol_name_st_eq)
  have rd: "reads c ?E = [(Required ''protocol'', validate_protocol_name c),
              (Required ''args'', vol_Length (Some 1) None)]"
    by (simp add: reads_def validate_protocol_name_st_eq)
  have vm: "vol_mapping_st ?E command c =
      (vol_mapping [(Required ''protocol'', validate_protocol_name c),
              (Required ''args'', vol_Length (Some 1) None)] command, c)"
    using vol_mapping_st_eq [OF fr, of command] by (simp only: rd)
  show ?thesis
    unfolding validate_command_st_def vm validate_command_def
    by (simp add: validate_args_st_eq get_proto_signature_st_eq
        split: sum.splits option.splits error.splits prod.splits)
qed

lemma validate_send_command_st_eq:
  "validate_send_command_st lib command c = (validate_send_command lib c command, c)"
  by (simp add: validate_send_command_st_def validate_send_command_def validate_command_st_eq
      split: sum.splits pyval.splits list.splits)

lemma perform_frame: "snd (perform lib op cache) = cache"
  by (cases op)
     (simp_all add: validate_send_command_st_eq validate_command_st_eq get_proto_def_st_eq
        get_proto_signature_st_eq)

lemma perform_all_frame:
  "snd (perform_all lib ops cache) = cache \<and>
   fst (perform_all lib ops cache) = map (\<lambda>op. fst (perform lib op cache)) ops"
proof (induction ops)
  case Nil
  then show ?case by simp
next
  case (Cons op ops)
  obtain r where r: "perform lib op cache = (r, cache)"
    using perform_frame [of lib op cache] by (metis prod.collapse)
  obtain rs where rs: "perform_all lib ops cache = (rs, cache)"
    and rs': "rs = map (\<lambda>op. fst (perform lib op cache)) ops"
    using Cons by (metis prod.collapse)
  from r rs rs' show ?case by simp
qed

text \<open>
  C7. Every call of \<^verbatim>\<open>validate_send_command\<close>, \<^verbatim>\<open>validate_command\<close>,
  \<^verbatim>\<open>get_proto_def\<close> or \<^verbatim>\<open>get_proto_signature\<close>, written as a procedure that takes the
  registry and returns it with its result, returns the registry it was given (the
  definitions with the store of their parameter mappings, the compiled schemas and the
  list of names), whether it returns a value or raises; so does every sequence of such
  calls, in which each call works on the registry that the call before it left, and
  each call of the sequence has the outcome it has on the registry the sequence started
  with. On the registry of the example two commands are accepted or answered and two
  are refused, and the registry is the same after all four.
\<close>

theorem registry_unchanged:
  "validate_send_command_st lib line cache = (validate_send_command lib cache line, cache) \<and>
   validate_command_st lib command cache = (validate_command lib cache command, cache) \<and>
   get_proto_def_st name cache = (get_proto_def cache name, cache) \<and>
   get_proto_signature_st lib name cache = (get_proto_signature lib cache name, cache) \<and>
   snd (perform lib op cache) = cache \<and>
   snd (perform_all lib ops cache) = cache \<and>
   fst (perform_all lib ops cache) = map (\<lambda>op. fst (perform lib op cache)) ops \<and>
   perform_all example_lib
       [ValidateSendCommand (PStr ''beep:440''), ValidateSendCommand (PStr ''unknown:1''),
        GetProtoSignature (PStr ''beep''), GetProtoDef (PStr ''nothing'')]
       beep_cache =
     ([Command [(''protocol'', PStr ''beep''), (''args'', PList [PInt 440, PInt 100])],
       Raised (Invalid (ProtocolNotDefined ''unknown'', [PStr ''protocol'']) []),
       Signature ''beep:<uint16 freq>:<uint16 duration?=100>'',
       Raised (Invalid (ProtocolNotDefined ''nothing'', []) [])],
      beep_cache)"
proof -
  let ?ops = "[ValidateSendCommand (PStr ''beep:440''), ValidateSendCommand (PStr ''unknown:1''),
        GetProtoSignature (PStr ''beep''), GetProtoDef (PStr ''nothing'')]"
  let ?out = "[Command [(''protocol'', PStr ''beep''), (''args'', PList [PInt 440, PInt 100])],
       Raised (Invalid (ProtocolNotDefined ''unknown'', [PStr ''protocol'']) []),
       Signature ''beep:<uint16 freq>:<uint16 duration?=100>'',
       Raised (Invalid (ProtocolNotDefined ''nothing'', []) [])]"
  have "case initialize example_lib no_mappings beep_catalog of
      Inl e \<Rightarrow> False
    | Inr cache \<Rightarrow> fst (perform_all example_lib ?ops cache) = ?out"
    by code_simp
  then have "fst (perform_all example_lib ?ops beep_cache) = ?out"
    by (simp add: beep_cache_ready)
  moreover have "snd (perform_all example_lib ?ops beep_cache) = beep_cache"
    using perform_all_frame by blast
  ultimately have ex: "perform_all example_lib ?ops beep_cache = (?out, beep_cache)"
    by (metis prod.collapse)
  from validate_send_command_st_eq [of lib line cache] validate_command_st_eq [of lib command cache]
    get_proto_def_st_eq [of name cache] get_proto_signature_st_eq [of lib name cache]
    perform_frame [of lib op cache] perform_all_frame [of lib ops cache] ex
  show ?thesis by (intro conjI) simp_all
qed

section \<open>Validating a command twice\<close>

text \<open>
  C9. Two validations of one command do not return identical commands when the protocol
  has an argument of the type \<^verbatim>\<open>bool\<close>. The catalog \<open>say_catalog\<close> loads; the command
  \<^verbatim>\<open>say:hello\<close> is validated, and validated again on the registry that the first call
  left. Both calls succeed, and in both results the argument \<^verbatim>\<open>loud\<close> is not a truth
  value but a function object, the result of calling the factory \<^verbatim>\<open>vol.Boolean\<close> on
  the default \<^verbatim>\<open>False\<close>. The two function objects are two objects, so the two commands
  are not equal (\<open>identical_commands\<close>). The two results for \<^verbatim>\<open>beep:440\<close> on the
  catalog of the end-to-end example, which has no such argument, are equal.
\<close>

theorem repeated_validation_function_object:
  "(case initialize example_lib no_mappings say_catalog of
      Inl e \<Rightarrow> False
    | Inr cache \<Rightarrow>
        (case validate_send_command_st example_lib (PStr ''say:hello'') cache of
           (Inl e, cache1) \<Rightarrow> False
         | (Inr first, cache1) \<Rightarrow>
             (case validate_send_command_st example_lib (PStr ''say:hello'') cache1 of
                (Inl e, cache2) \<Rightarrow> False
              | (Inr second, cache2) \<Rightarrow>
                  first = [(''protocol'', PStr ''say''),
                           (''args'', PList [PStr ''hello'', PCallable (PBool False)])] \<and>
                  second = [(''protocol'', PStr ''say''),
                            (''args'', PList [PStr ''hello'', PCallable (PBool False)])] \<and>
                  \<not> identical_commands first second))) \<and>
   (case initialize example_lib no_mappings beep_catalog of
      Inl e \<Rightarrow> False
    | Inr cache \<Rightarrow>
        (case validate_send_command_st example_lib (PStr ''beep:440'') cache of
           (Inl e, cache1) \<Rightarrow> False
         | (Inr first, cache1) \<Rightarrow>
             (case validate_send_command_st example_lib (PStr ''beep:440'') cache1 of
                (Inl e, cache2) \<Rightarrow> False
              | (Inr second, cache2) \<Rightarrow> identical_commands first second)))"
  by code_simp

section \<open>The validator of an argument\<close>

lemma range_first_use:
  "schema_item lib range_store (''Range'', DictParams 0) =
     (case lib_call lib ''Range'' [PInt 0, PInt 100] [] of
        Inl e \<Rightarrow> Inl e
      | Inr f \<Rightarrow> Inr (Some f, range_store(0 := [])))"
  by (cases "lib_call lib ''Range'' [PInt 0, PInt 100] []")
     (simp_all add: range_store_def no_mappings_def call_validator_def validator_names_def
        del_key_def)

lemma range_second_use:
  "schema_item lib (range_store(0 := [])) (''Range'', DictParams 0) =
     (case lib_call lib ''Range'' [] [] of
        Inl e \<Rightarrow> Inl e
      | Inr f \<Rightarrow> Inr (Some f, range_store(0 := [])))"
  by (cases "lib_call lib ''Range'' [] []")
     (simp_all add: call_validator_def validator_names_def)

text \<open>
  C4. The validator installed for an argument is not built from the parameters that
  the catalog declares when a parameter mapping is used by two constraints (a YAML
  anchor and its alias). In \<open>fade_catalog\<close> the arguments \<^verbatim>\<open>start\<close> and \<^verbatim>\<open>stop\<close> are
  both declared with \<^verbatim>\<open>Range: {args: [0, 100]}\<close>, through one mapping. The catalog
  loads. Compiling \<^verbatim>\<open>start\<close> takes the key \<^verbatim>\<open>args\<close> out of the mapping
  (\<^verbatim>\<open>del a["args"]\<close>), so \<^verbatim>\<open>stop\<close> is compiled from an empty mapping and gets
  \<^verbatim>\<open>vol.Range()\<close>, a range without bounds: the validator of \<^verbatim>\<open>start\<close> refuses 101, the
  validator of \<^verbatim>\<open>stop\<close> accepts it (only the type still bounds it, at 255), and the
  command \<^verbatim>\<open>fade:50:101\<close> is accepted. When the file writes the mapping out for each
  argument (\<open>fade_catalog_apart\<close>), both validators refuse 101, as declared. For every
  library: the constraint compiled first from the mapping calls \<^verbatim>\<open>vol.Range(0, 100)\<close>
  and leaves the mapping empty, and a constraint compiled from the mapping after that
  calls \<^verbatim>\<open>vol.Range()\<close>.
\<close>

theorem shared_parameters_lost:
  "schema_item lib range_store (''Range'', DictParams 0) =
     (case lib_call lib ''Range'' [PInt 0, PInt 100] [] of
        Inl e \<Rightarrow> Inl e
      | Inr f \<Rightarrow> Inr (Some f, range_store(0 := []))) \<and>
   schema_item lib (range_store(0 := [])) (''Range'', DictParams 0) =
     (case lib_call lib ''Range'' [] [] of
        Inl e \<Rightarrow> Inl e
      | Inr f \<Rightarrow> Inr (Some f, range_store(0 := []))) \<and>
   (case initialize example_lib range_store fade_catalog of
      Inl e \<Rightarrow> False
    | Inr cache \<Rightarrow>
        cache_store cache 0 = [] \<and>
        (case lookup_schema cache ''fade'' of
           Inl e \<Rightarrow> False
         | Inr ps \<Rightarrow>
             (case (find_entry (schema_entries_of ps) ''start'',
                    find_entry (schema_entries_of ps) ''stop'') of
                (Some f, Some g) \<Rightarrow>
                  f (PInt 100) = Inr (PInt 100) \<and> f (PInt 101) = invalid (ValueAtMost 100) \<and>
                  g (PInt 100) = Inr (PInt 100) \<and> g (PInt 101) = Inr (PInt 101) \<and>
                  g (PInt 256) = invalid (ValueAtMost 255)
              | _ \<Rightarrow> False)) \<and>
        validate_send_command example_lib cache (PStr ''fade:50:101'') =
          Inr [(''protocol'', PStr ''fade''), (''args'', PList [PInt 50, PInt 101])]) \<and>
   (case initialize example_lib range_store_apart fade_catalog_apart of
      Inl e \<Rightarrow> False
    | Inr cache \<Rightarrow>
        (case lookup_schema cache ''fade'' of
           Inl e \<Rightarrow> False
         | Inr ps \<Rightarrow>
             (case find_entry (schema_entries_of ps) ''stop'' of
                Some g \<Rightarrow> g (PInt 100) = Inr (PInt 100) \<and> g (PInt 101) = invalid (ValueAtMost 100)
              | None \<Rightarrow> False)) \<and>
        validate_send_command example_lib cache (PStr ''fade:50:101'') =
          invalid (MalformattedCommand ''fade'' ''fade:<uint8 start>:<uint8 stop>''
            [(''protocol'', PStr ''fade''), (''args'', PList [PStr ''50'', PStr ''101''])]
            (Some (PStr ''stop'')) (ValueAtMost 100)))"
proof -
  have "(case initialize example_lib range_store fade_catalog of
      Inl e \<Rightarrow> False
    | Inr cache \<Rightarrow>
        cache_store cache 0 = [] \<and>
        (case lookup_schema cache ''fade'' of
           Inl e \<Rightarrow> False
         | Inr ps \<Rightarrow>
             (case (find_entry (schema_entries_of ps) ''start'',
                    find_entry (schema_entries_of ps) ''stop'') of
                (Some f, Some g) \<Rightarrow>
                  f (PInt 100) = Inr (PInt 100) \<and> f (PInt 101) = invalid (ValueAtMost 100) \<and>
                  g (PInt 100) = Inr (PInt 100) \<and> g (PInt 101) = Inr (PInt 101) \<and>
                  g (PInt 256) = invalid (ValueAtMost 255)
              | _ \<Rightarrow> False)) \<and>
        validate_send_command example_lib cache (PStr ''fade:50:101'') =
          Inr [(''protocol'', PStr ''fade''), (''args'', PList [PInt 50, PInt 101])]) \<and>
   (case initialize example_lib range_store_apart fade_catalog_apart of
      Inl e \<Rightarrow> False
    | Inr cache \<Rightarrow>
        (case lookup_schema cache ''fade'' of
           Inl e \<Rightarrow> False
         | Inr ps \<Rightarrow>
             (case find_entry (schema_entries_of ps) ''stop'' of
                Some g \<Rightarrow> g (PInt 100) = Inr (PInt 100) \<and> g (PInt 101) = invalid (ValueAtMost 100)
              | None \<Rightarrow> False)) \<and>
        validate_send_command example_lib cache (PStr ''fade:50:101'') =
          invalid (MalformattedCommand ''fade'' ''fade:<uint8 start>:<uint8 stop>''
            [(''protocol'', PStr ''fade''), (''args'', PList [PStr ''50'', PStr ''101''])]
            (Some (PStr ''stop'')) (ValueAtMost 100)))"
    by code_simp
  then show ?thesis
    by (rule conjI [OF range_first_use conjI [OF range_second_use]])
qed

section \<open>Default values\<close>

text \<open>
  C6. The coerced default is computed while the catalog is loaded, but it is not what
  the registry keeps. For the argument \<^verbatim>\<open>level\<close> of the dimmer catalog,
  \<^verbatim>\<open>validate_default\<close> runs the declared default \<^verbatim>\<open>"0x32"\<close> through the validator of
  the argument and puts the result, 50, in the place of the default of the definition
  it was given. That definition is the copy made by the loader's schema
  (\<^verbatim>\<open>ARGS_SCHEMA\<close> returns it with the default 50), and \<^verbatim>\<open>load_protocols\<close> drops
  the result of the schema and returns the catalog as read: in the registry the default of
  \<^verbatim>\<open>level\<close> is the string \<^verbatim>\<open>"0x32"\<close>, and so it is in the key of the compiled schema
  and in the signature of the protocol. A command without the argument gets the value
  50, because the mapping schema validates the default that it puts in. A default that
  its validator refuses (\<^verbatim>\<open>"0x65"\<close>, which is 101) makes \<^verbatim>\<open>initialize()\<close> fail.
\<close>

theorem coerced_default_dropped:
  "(case validate_default example_lib range_store level_arg of
      Inl e \<Rightarrow> False
    | Inr (arg, copies) \<Rightarrow> arg_default arg = Some (PInt 50)) \<and>
   (case ARGS_SCHEMA example_lib range_store level_arg of
      Inl e \<Rightarrow> False
    | Inr arg \<Rightarrow> arg_default arg = Some (PInt 50)) \<and>
   (case initialize example_lib range_store dimmer_catalog of
      Inl e \<Rightarrow> False
    | Inr cache \<Rightarrow>
        (case get_proto_def cache (PStr ''dim'') of
           Inl e \<Rightarrow> False
         | Inr pd \<Rightarrow> map arg_default (proto_args pd) = [None, Some (PStr ''0x32'')]) \<and>
        (case lookup_schema cache ''dim'' of
           Inl e \<Rightarrow> False
         | Inr ps \<Rightarrow>
             map fst (schema_entries_of ps) =
               [Required ''channel'', Optional ''level'' (PStr ''0x32'')]) \<and>
        get_proto_signature example_lib cache (PStr ''dim'') =
          Inr ''dim:<uint8 channel>:<uint8 level?=0x32>'' \<and>
        validate_send_command example_lib cache (PStr ''dim:1'') =
          Inr [(''protocol'', PStr ''dim''), (''args'', PList [PInt 1, PInt 50])]) \<and>
   (case initialize example_lib range_store over_catalog of
      Inl e \<Rightarrow>
        e = Invalid (DefaultValueError ''level'' (ValueAtMost 100),
                     [PStr ''dim'', PStr ''args'', PInt 1]) []
    | Inr cache \<Rightarrow> False)"
  by code_simp

end
